theory Spec2Isabelle
  imports Complex_Main
begin

section \<open>Bike fit calculator: numbers and template strings\<close>

text \<open>
  The calculator works on JavaScript numbers, binary64 floats. The finite ones are real
  numbers, so a number is a HOL real here; NaN and the infinities are not modelled. What
  the machine computes is kept apart from exact arithmetic: every \<^verbatim>\<open>+\<close>, \<^verbatim>\<open>-\<close>, \<^verbatim>\<open>*\<close>
  and \<^verbatim>\<open>/\<close> of the source, \<^verbatim>\<open>Math.sin\<close>, \<^verbatim>\<open>Math.cos\<close>, \<^verbatim>\<open>Math.tan\<close>, \<^verbatim>\<open>Math.PI\<close>
  and the literal \<^verbatim>\<open>0.1\<close> (which is not a binary64 value) are the fields of an
  arithmetic, and every function of the model takes the arithmetic as its first
  argument. Comparison, negation, \<^verbatim>\<open>Math.abs\<close> and \<^verbatim>\<open>Math.round\<close> are exact on
  binary64 values and are HOL's; the other literals of the source are binary64 values.
  An optional property (\<^verbatim>\<open>x?: number\<close>) is a \<open>real option\<close>, \<open>None\<close> standing for
  \<^verbatim>\<open>undefined\<close>.
\<close>

record Arith =
  fadd :: "real \<Rightarrow> real \<Rightarrow> real"
  fsub :: "real \<Rightarrow> real \<Rightarrow> real"
  fmul :: "real \<Rightarrow> real \<Rightarrow> real"
  fdiv :: "real \<Rightarrow> real \<Rightarrow> real"
  Math_sin :: "real \<Rightarrow> real"
  Math_cos :: "real \<Rightarrow> real"
  Math_tan :: "real \<Rightarrow> real"
  Math_PI :: real
  point_one :: real

text \<open>\<^verbatim>\<open>Math.round\<close>: the nearest integer, a tie going up.\<close>

definition Math_round :: "real \<Rightarrow> real" where
  "Math_round x = of_int \<lfloor>x + 1 / 2\<rfloor>"

text \<open>\<^verbatim>\<open>x || d\<close> on a number that may be missing: \<^verbatim>\<open>undefined\<close> and \<open>0\<close> are both falsy.\<close>

definition or_else :: "real option \<Rightarrow> real \<Rightarrow> real" where
  "or_else x d = (case x of None \<Rightarrow> d | Some v \<Rightarrow> if v = 0 then d else v)"

text \<open>A destructuring default \<^verbatim>\<open>{ x = d }\<close> applies to \<^verbatim>\<open>undefined\<close> only.\<close>

definition default_to :: "real option \<Rightarrow> real \<Rightarrow> real" where
  "default_to x d = (case x of None \<Rightarrow> d | Some v \<Rightarrow> v)"

text \<open>
  A template literal is kept as the sequence of its pieces: literal text, an
  interpolated number, and a number printed by \<^verbatim>\<open>x.toFixed(0)\<close>.
  How JavaScript prints a number is not modelled.
\<close>

datatype part = Lit string | Num real | Fixed0 real

type_synonym message = "part list"

text \<open>The degree sign of the notes, as its two UTF-8 bytes.\<close>

definition degree_sign :: string where
  "degree_sign = [CHR 0xC2, CHR 0xB0]"

section \<open>Data model\<close>

text \<open>
  \<^verbatim>\<open>RetulFitData['fitPosition']\<close>. The interface declares \<^verbatim>\<open>saddleAngle\<close> and
  \<^verbatim>\<open>effectiveSeatTubeAngle\<close> as required numbers, but the calculator guards both with
  \<^verbatim>\<open>||\<close> and the report parser may leave them unset, so they are optional here.
\<close>

record FitPosition =
  saddleHeight :: real
  saddleSetback :: real
  saddleAngle :: "real option"
  handlebarStack :: real
  handlebarReach :: real
  handlebarDrop :: real
  effectiveSeatTubeAngle :: "real option"
  gripReach :: "real option"
  gripDrop :: "real option"
  barReach :: "real option"
  gripWidth :: "real option"
  gripAngle :: "real option"

text \<open>\<^verbatim>\<open>RetulFitData['originalBike']\<close>, each property prefixed with \<open>bike\<close>.\<close>

record OriginalBike =
  bikeMake :: string
  bikeModel :: string
  bikeSize :: string
  bikeYear :: real
  bikeType :: string

text \<open>
  \<^verbatim>\<open>RetulFitData\<close>, restricted to the properties \<^verbatim>\<open>calculateBikeSetup\<close> reads
  (\<^verbatim>\<open>riderName\<close>, \<^verbatim>\<open>components\<close>, \<^verbatim>\<open>frameStack\<close>, \<^verbatim>\<open>frameReach\<close> and
  \<^verbatim>\<open>fitter\<close> are never read by the two calculators).
\<close>

record RetulFitData =
  fitDate :: "string option"
  originalBike :: "OriginalBike option"
  fitPosition :: FitPosition

text \<open>
  \<^verbatim>\<open>FrameGeometry\<close>. \<^verbatim>\<open>headTubeAngle\<close> is declared required; the solver reads it
  as \<^verbatim>\<open>newFrame.headTubeAngle || 73\<close> ("default to 73 if not provided"), so \<open>None\<close>
  models a value missing at run time.
\<close>

record FrameGeometry =
  stackMm :: real
  reachMm :: real
  headTubeAngle :: "real option"
  headTubeLengthMm :: "real option"
  seatTubeAngle :: "real option"
  seatTubeLengthMm :: "real option"
  bbDropMm :: "real option"

text \<open>The \<^verbatim>\<open>options\<close> argument of \<^verbatim>\<open>calculateStemRequirements\<close>.\<close>

record StemOptions =
  opt_maxStemLength :: "real option"
  opt_minStemLength :: "real option"
  opt_maxSpacers :: "real option"
  opt_preferredStemAngle :: "real option"

definition no_options :: StemOptions where
  "no_options = \<lparr>opt_maxStemLength = None, opt_minStemLength = None,
     opt_maxSpacers = None, opt_preferredStemAngle = None\<rparr>"

text \<open>\<^verbatim>\<open>StemCalculation\<close>; its \<^verbatim>\<open>notes\<close> property is \<open>stem_notes\<close>.\<close>

record StemCalculation =
  stemLength :: real
  stemAngle :: real
  spacerStack :: real
  stackDelta :: real
  reachDelta :: real
  isAchievable :: bool
  stem_notes :: "message list"

text \<open>
  \<^verbatim>\<open>BikeSetupCalculation\<close>; the properties that share a name with one of
  \<^verbatim>\<open>fitPosition\<close> or \<^verbatim>\<open>StemCalculation\<close> carry the prefix \<open>setup_\<close>.
\<close>

record BikeSetupCalculation =
  stem :: StemCalculation
  setup_saddleHeight :: real
  seatpostExtension :: "real option"
  setup_saddleSetback :: real
  setup_saddleAngle :: real
  setup_effectiveSeatTubeAngle :: "real option"
  seatpostOffsetNeeded :: real
  originalFitBike :: "string option"
  originalFitDate :: "string option"
  setup_notes :: "message list"
  warnings :: "message list"

section \<open>calculateStemRequirements\<close>

text \<open>
  The constants in scope of the search loops: the destructured options, the target
  position, the frame, and \<^verbatim>\<open>headTubeAngle = newFrame.headTubeAngle || 73\<close>
  (here \<open>htAngle\<close>).
\<close>

record Locals =
  maxStemLength :: real
  minStemLength :: real
  maxSpacers :: real
  preferredStemAngle :: real
  targetStack :: real
  targetReach :: real
  frameStack :: real
  frameReach :: real
  htAngle :: real

definition locals_of :: "FitPosition \<Rightarrow> FrameGeometry \<Rightarrow> StemOptions \<Rightarrow> Locals" where
  "locals_of fitPos newFrame options =
     \<lparr>maxStemLength = default_to (opt_maxStemLength options) 140,
      minStemLength = default_to (opt_minStemLength options) 60,
      maxSpacers = default_to (opt_maxSpacers options) 50,
      preferredStemAngle = default_to (opt_preferredStemAngle options) (- 6),
      targetStack = handlebarStack fitPos,
      targetReach = handlebarReach fitPos,
      frameStack = stackMm newFrame,
      frameReach = reachMm newFrame,
      htAngle = or_else (headTubeAngle newFrame) 73\<rparr>"

text \<open>\<^verbatim>\<open>(headTubeAngle * Math.PI) / 180\<close>\<close>

definition htaRad :: "Arith \<Rightarrow> Locals \<Rightarrow> real" where
  "htaRad A L = fdiv A (fmul A (htAngle L) (Math_PI A)) 180"

definition requiredStackGain :: "Arith \<Rightarrow> Locals \<Rightarrow> real" where
  "requiredStackGain A L = fsub A (targetStack L) (frameStack L)"

definition requiredReachGain :: "Arith \<Rightarrow> Locals \<Rightarrow> real" where
  "requiredReachGain A L = fsub A (targetReach L) (frameReach L)"

text \<open>\<^verbatim>\<open>((headTubeAngle - 90 + stemAngle) * Math.PI) / 180\<close>\<close>

definition effectiveAngle :: "Arith \<Rightarrow> Locals \<Rightarrow> real \<Rightarrow> real" where
  "effectiveAngle A L a = fdiv A (fmul A (fadd A (fsub A (htAngle L) 90) a) (Math_PI A)) 180"

text \<open>The object kept in \<^verbatim>\<open>bestSolution\<close>.\<close>

record BestSolution =
  spacers :: real
  best_stemLength :: real
  best_stemAngle :: real
  error :: real

text \<open>
  The averaged stem length of the inner loop's body for one spacer height and one
  stem angle (the body reaches it only when \<open>\<bar>cos effectiveAngle\<bar> \<ge> 0.1\<close>).
\<close>

definition avgStemLength :: "Arith \<Rightarrow> Locals \<Rightarrow> real \<Rightarrow> real \<Rightarrow> real" where
  "avgStemLength A L s a =
     (let spacerStackContrib = fmul A s (Math_sin A (htaRad A L));
          spacerReachContrib = fmul A s (Math_cos A (htaRad A L));
          stemStackNeeded = fsub A (requiredStackGain A L) spacerStackContrib;
          stemReachNeeded = fsub A (requiredReachGain A L) spacerReachContrib;
          stemLengthFromReach = fdiv A stemReachNeeded (Math_cos A (effectiveAngle A L a));
          stemLengthFromStack =
            (if \<bar>Math_sin A (effectiveAngle A L a)\<bar> > point_one A
             then fdiv A stemStackNeeded (Math_sin A (effectiveAngle A L a))
             else stemLengthFromReach)
      in fdiv A (fadd A stemLengthFromReach stemLengthFromStack) 2)"

text \<open>The score of the body, \<^verbatim>\<open>totalError + anglePenalty\<close>.\<close>

definition scoredError :: "Arith \<Rightarrow> Locals \<Rightarrow> real \<Rightarrow> real \<Rightarrow> real" where
  "scoredError A L s a =
     (let spacerStackContrib = fmul A s (Math_sin A (htaRad A L));
          spacerReachContrib = fmul A s (Math_cos A (htaRad A L));
          stemLength = avgStemLength A L s a;
          actualReachGain =
            fadd A spacerReachContrib (fmul A stemLength (Math_cos A (effectiveAngle A L a)));
          actualStackGain =
            fadd A spacerStackContrib (fmul A stemLength (Math_sin A (effectiveAngle A L a)));
          reachError = \<bar>fsub A actualReachGain (requiredReachGain A L)\<bar>;
          stackError = \<bar>fsub A actualStackGain (requiredStackGain A L)\<bar>;
          totalError = fadd A reachError stackError;
          anglePenalty = fmul A \<bar>fsub A a (preferredStemAngle L)\<bar> 0.5
      in fadd A totalError anglePenalty)"

text \<open>
  The candidate one pass of the inner loop offers: none when the pass is skipped
  (\<^verbatim>\<open>continue\<close>) or the stem length is out of bounds.
\<close>

definition candidate :: "Arith \<Rightarrow> Locals \<Rightarrow> real \<Rightarrow> real \<Rightarrow> BestSolution option" where
  "candidate A L s a =
     (if \<bar>Math_cos A (effectiveAngle A L a)\<bar> < point_one A then None
      else if avgStemLength A L s a \<ge> minStemLength L \<and> avgStemLength A L s a \<le> maxStemLength L
      then Some \<lparr>spacers = s, best_stemLength = Math_round (avgStemLength A L s a),
                  best_stemAngle = a, error = scoredError A L s a\<rparr>
      else None)"

text \<open>\<^verbatim>\<open>if (!bestSolution || scoredError < bestSolution.error) bestSolution = ...\<close>\<close>

definition keep_better :: "BestSolution option \<Rightarrow> BestSolution option \<Rightarrow> BestSolution option" where
  "keep_better bestSolution c =
     (case c of
        None \<Rightarrow> bestSolution
      | Some new \<Rightarrow>
          (case bestSolution of
             None \<Rightarrow> Some new
           | Some b \<Rightarrow> if error new < error b then Some new else bestSolution))"

text \<open>
  \<^verbatim>\<open>for (let stemAngle = -17; stemAngle <= 17; stemAngle += 1)\<close>, entered at \<open>a\<close>. The
  counter runs over the integers from -17 to 18, which binary64 adds exactly.
\<close>

function angle_loop ::
    "Arith \<Rightarrow> Locals \<Rightarrow> real \<Rightarrow> real \<Rightarrow> BestSolution option \<Rightarrow> BestSolution option" where
  "angle_loop A L s a bestSolution =
     (if a \<le> 17
      then angle_loop A L s (a + 1) (keep_better bestSolution (candidate A L s a))
      else bestSolution)"
  by pat_completeness auto
termination
  by (relation "measure (\<lambda>(A, L, s, a, b). nat (\<lfloor>17 - a\<rfloor> + 1))") (auto, linarith)

text \<open>
  \<^verbatim>\<open>for (let spacers = 0; spacers <= maxSpacers; spacers += 5)\<close>, entered at \<open>s\<close>. The
  counter is advanced by the machine's addition, which stops increasing it once 5 is
  less than half the gap to the next binary64 value; the loop then never ends, and the
  result is \<open>None\<close>.
\<close>

partial_function (option) spacers_loop ::
    "Arith \<Rightarrow> Locals \<Rightarrow> real \<Rightarrow> BestSolution option \<Rightarrow> BestSolution option option" where
  "spacers_loop A L s bestSolution =
     (if s \<le> maxSpacers L
      then spacers_loop A L (fadd A s 5) (angle_loop A L s (- 17) bestSolution)
      else Some bestSolution)"

definition not_achievable_note :: message where
  "not_achievable_note =
     [Lit ''Exact fit position may not be achievable with standard components'']"

text \<open>The branch \<^verbatim>\<open>if (!bestSolution)\<close>: max spacers and a 100 mm stem at the preferred angle.\<close>

definition fallback :: "Arith \<Rightarrow> Locals \<Rightarrow> StemCalculation" where
  "fallback A L =
     (let defaultStemLength = 100;
          defaultStemAngle = preferredStemAngle L;
          spacerStackContrib = fmul A (maxSpacers L) (Math_sin A (htaRad A L));
          spacerReachContrib = fmul A (maxSpacers L) (Math_cos A (htaRad A L));
          stemReachContrib =
            fmul A defaultStemLength (Math_cos A (effectiveAngle A L defaultStemAngle));
          stemStackContrib =
            fmul A defaultStemLength (Math_sin A (effectiveAngle A L defaultStemAngle));
          achievableStack = fadd A (fadd A (frameStack L) spacerStackContrib) stemStackContrib;
          achievableReach = fadd A (fadd A (frameReach L) spacerReachContrib) stemReachContrib
      in \<lparr>stemLength = defaultStemLength,
          stemAngle = defaultStemAngle,
          spacerStack = maxSpacers L,
          stackDelta = fsub A achievableStack (targetStack L),
          reachDelta = fsub A achievableReach (targetReach L),
          isAchievable = False,
          stem_notes = [not_achievable_note]\<rparr>)"

definition commonStemLengths :: "real list" where
  "commonStemLengths = [70, 80, 90, 100, 110, 120, 130, 140]"

text \<open>\<^verbatim>\<open>Array.prototype.reduce\<close> without an initial value, on a non-empty array.\<close>

fun array_reduce :: "('a \<Rightarrow> 'a \<Rightarrow> 'a) \<Rightarrow> 'a list \<Rightarrow> 'a option" where
  "array_reduce f [] = None"
| "array_reduce f (x # xs) = Some (foldl f x xs)"

definition nearestCommon :: "Arith \<Rightarrow> real \<Rightarrow> real option" where
  "nearestCommon A len =
     array_reduce (\<lambda>prev curr. if \<bar>fsub A curr len\<bar> < \<bar>fsub A prev len\<bar> then curr else prev)
       commonStemLengths"

text \<open>The deltas of the winning candidate, before rounding.\<close>

definition best_stackDelta :: "Arith \<Rightarrow> Locals \<Rightarrow> BestSolution \<Rightarrow> real" where
  "best_stackDelta A L b =
     (let spacerStackContrib = fmul A (spacers b) (Math_sin A (htaRad A L));
          stemStackContrib =
            fmul A (best_stemLength b) (Math_sin A (effectiveAngle A L (best_stemAngle b)));
          achievableStack = fadd A (fadd A (frameStack L) spacerStackContrib) stemStackContrib
      in fsub A achievableStack (targetStack L))"

definition best_reachDelta :: "Arith \<Rightarrow> Locals \<Rightarrow> BestSolution \<Rightarrow> real" where
  "best_reachDelta A L b =
     (let spacerReachContrib = fmul A (spacers b) (Math_cos A (htaRad A L));
          stemReachContrib =
            fmul A (best_stemLength b) (Math_cos A (effectiveAngle A L (best_stemAngle b)));
          achievableReach = fadd A (fadd A (frameReach L) spacerReachContrib) stemReachContrib
      in fsub A achievableReach (targetReach L))"

text \<open>The notes of the winning candidate, in the order they are pushed.\<close>

definition handlebar_note :: "real \<Rightarrow> string \<Rightarrow> message" where
  "handlebar_note delta direction =
     [Lit ''Handlebar will be '', Fixed0 \<bar>delta\<bar>, Lit ''mm '', Lit direction,
      Lit '' than original fit'']"

definition nearest_common_note :: "real \<Rightarrow> message" where
  "nearest_common_note n = [Lit ''Nearest common stem length: '', Num n, Lit ''mm'']"

definition best_notes :: "Arith \<Rightarrow> Locals \<Rightarrow> BestSolution \<Rightarrow> message list" where
  "best_notes A L b =
     (let stackDelta = best_stackDelta A L b;
          reachDelta = best_reachDelta A L b
      in (if \<bar>stackDelta\<bar> > 5
          then [handlebar_note stackDelta (if stackDelta > 0 then ''higher'' else ''lower'')]
          else []) @
         (if \<bar>reachDelta\<bar> > 5
          then [handlebar_note reachDelta (if reachDelta > 0 then ''further'' else ''closer'')]
          else []) @
         (case nearestCommon A (best_stemLength b) of
            None \<Rightarrow> []
          | Some n \<Rightarrow> if n \<noteq> best_stemLength b then [nearest_common_note n] else []))"

text \<open>The return after the search found a candidate.\<close>

definition from_best :: "Arith \<Rightarrow> Locals \<Rightarrow> BestSolution \<Rightarrow> StemCalculation" where
  "from_best A L b =
     \<lparr>stemLength = best_stemLength b,
      stemAngle = best_stemAngle b,
      spacerStack = spacers b,
      stackDelta = Math_round (best_stackDelta A L b),
      reachDelta = Math_round (best_reachDelta A L b),
      isAchievable = (\<bar>best_stackDelta A L b\<bar> \<le> 10 \<and> \<bar>best_reachDelta A L b\<bar> \<le> 10),
      stem_notes = best_notes A L b\<rparr>"

text \<open>The two loops, from \<^verbatim>\<open>bestSolution = null\<close>; \<open>None\<close> when they never end.\<close>

definition search :: "Arith \<Rightarrow> Locals \<Rightarrow> BestSolution option option" where
  "search A L = spacers_loop A L 0 None"

text \<open>The function returns a value exactly when the search ends.\<close>

definition calculateStemRequirements ::
    "Arith \<Rightarrow> FitPosition \<Rightarrow> FrameGeometry \<Rightarrow> StemOptions \<Rightarrow> StemCalculation option" where
  "calculateStemRequirements A fitPos newFrame options =
     (let L = locals_of fitPos newFrame options
      in case search A L of
           None \<Rightarrow> None
         | Some None \<Rightarrow> Some (fallback A L)
         | Some (Some bestSolution) \<Rightarrow> Some (from_best A L bestSolution))"

section \<open>calculateBikeSetup\<close>

text \<open>The two warnings of the seatpost block.\<close>

definition low_extension_warning :: "real \<Rightarrow> message" where
  "low_extension_warning ext =
     [Lit ''Low seatpost extension ('', Num ext, Lit ''mm) - check minimum insertion depth'']"

definition high_extension_warning :: "real \<Rightarrow> message" where
  "high_extension_warning ext =
     [Lit ''High seatpost extension ('', Num ext, Lit ''mm) - consider a longer seat tube'']"

text \<open>
  The seatpost block: the extension (\<^verbatim>\<open>null\<close> is \<open>None\<close>) and the warnings it pushes.
  \<^verbatim>\<open>if (newFrame.seatTubeLengthMm)\<close> is false for a missing length and for 0. The
  division is not guarded: where \<open>Math_sin A staRad = 0\<close> the code produces an infinity
  or NaN, which the model does not have.
\<close>

definition seatpost_block ::
    "Arith \<Rightarrow> FitPosition \<Rightarrow> FrameGeometry \<Rightarrow> real option \<times> message list" where
  "seatpost_block A fitPos newFrame =
     (case seatTubeLengthMm newFrame of
        None \<Rightarrow> (None, [])
      | Some len \<Rightarrow>
          if len = 0 then (None, [])
          else
            let seatTubeAngle' =
                  or_else (seatTubeAngle newFrame) (or_else (effectiveSeatTubeAngle fitPos) 73);
                staRad = fdiv A (fmul A seatTubeAngle' (Math_PI A)) 180;
                projectedSaddleHeight = fdiv A (saddleHeight fitPos) (Math_sin A staRad);
                ext = Math_round (fsub A projectedSaddleHeight len)
            in (Some ext,
                (if ext < 50 then [low_extension_warning ext] else []) @
                (if ext > 200 then [high_extension_warning ext] else [])))"

text \<open>The notes of the offset block; \<open>mm\<close> is the literal \<^verbatim>\<open>25\<close> or \<^verbatim>\<open>20\<close>.\<close>

definition steeper_note :: "real \<Rightarrow> real \<Rightarrow> string \<Rightarrow> message" where
  "steeper_note frameSTA effectiveSTA mm =
     [Lit ''Frame STA ('', Num frameSTA, Lit (degree_sign @ '') is steeper than fit (''),
      Num effectiveSTA, Lit (degree_sign @ '') - use '' @ mm @ ''mm setback seatpost'')]"

definition slacker_note :: "real \<Rightarrow> real \<Rightarrow> message" where
  "slacker_note frameSTA effectiveSTA =
     [Lit ''Frame STA ('', Num frameSTA, Lit (degree_sign @ '') is slacker than fit (''),
      Num effectiveSTA,
      Lit (degree_sign @ '') - use 0mm offset seatpost, may need forward saddle position'')]"

text \<open>
  The offset block: \<^verbatim>\<open>seatpostOffsetNeeded\<close> and the note it pushes. With
  \<^verbatim>\<open>effectiveSTA\<close> undefined the difference is NaN and no comparison holds.
\<close>

definition offset_block :: "Arith \<Rightarrow> FitPosition \<Rightarrow> FrameGeometry \<Rightarrow> real \<times> message list" where
  "offset_block A fitPos newFrame =
     (let frameSTA = or_else (seatTubeAngle newFrame) 73
      in case effectiveSeatTubeAngle fitPos of
           None \<Rightarrow> (0, [])
         | Some effectiveSTA \<Rightarrow>
             let staDifference = fsub A effectiveSTA frameSTA
             in if \<bar>staDifference\<bar> > 0.5
                then
                  let setbackChangePerDegree =
                        fmul A (saddleHeight fitPos)
                          (Math_tan A (fdiv A (fmul A 1 (Math_PI A)) 180));
                      setbackDifference = fmul A staDifference setbackChangePerDegree
                  in if setbackDifference > 15
                     then (25, [steeper_note frameSTA effectiveSTA ''25''])
                     else if setbackDifference > 8
                     then (20, [steeper_note frameSTA effectiveSTA ''20''])
                     else if setbackDifference < - 15
                     then (0, [slacker_note frameSTA effectiveSTA])
                     else (0, [])
                else (0, []))"

definition forward_saddle_note :: message where
  "forward_saddle_note =
     [Lit ''Forward saddle position - ensure saddle rails allow this adjustment'']"

text \<open>The function returns a value exactly when the solver it calls does.\<close>

definition calculateBikeSetup ::
    "Arith \<Rightarrow> RetulFitData \<Rightarrow> FrameGeometry \<Rightarrow> BikeSetupCalculation option" where
  "calculateBikeSetup A fitData newFrame =
     (case calculateStemRequirements A (fitPosition fitData) newFrame no_options of
        None \<Rightarrow> None
      | Some stem' \<Rightarrow>
          let (seatpostExtension', warnings') = seatpost_block A (fitPosition fitData) newFrame;
              (seatpostOffsetNeeded', offsetNotes) = offset_block A (fitPosition fitData) newFrame;
              notes' = offsetNotes @
                (if \<bar>saddleSetback (fitPosition fitData)\<bar> < 50 then [forward_saddle_note] else [])
          in Some \<lparr>stem = stem',
              setup_saddleHeight = saddleHeight (fitPosition fitData),
              seatpostExtension = seatpostExtension',
              setup_saddleSetback = saddleSetback (fitPosition fitData),
              setup_saddleAngle = or_else (saddleAngle (fitPosition fitData)) 0,
              setup_effectiveSeatTubeAngle = effectiveSeatTubeAngle (fitPosition fitData),
              seatpostOffsetNeeded = seatpostOffsetNeeded',
              originalFitBike =
                (case originalBike fitData of
                   None \<Rightarrow> None
                 | Some ob \<Rightarrow> Some (bikeMake ob @ '' '' @ bikeModel ob @ '' '' @ bikeSize ob)),
              originalFitDate = fitDate fitData,
              setup_notes = stem_notes stem' @ notes',
              warnings = warnings'\<rparr>)"

section \<open>Auxiliary notions for the proofs\<close>

declare angle_loop.simps [simp del]

subsection \<open>The search as a minimum over a grid\<close>

text \<open>The value of the spacer counter after \<open>n\<close> increments.\<close>

definition counter :: "Arith \<Rightarrow> nat \<Rightarrow> real" where
  "counter A n = ((\<lambda>s. fadd A s 5) ^^ n) 0"

text \<open>The spacer loop ends with its \<open>n\<close>-th test: the first counter value above the bound.\<close>

definition exits :: "Arith \<Rightarrow> real \<Rightarrow> nat \<Rightarrow> bool" where
  "exits A mx n \<longleftrightarrow> (\<forall>k<n. counter A k \<le> mx) \<and> \<not> counter A n \<le> mx"

text \<open>The outer loop run for \<open>d\<close> rounds from the \<open>k\<close>-th counter value.\<close>

primrec spacer_rows ::
    "Arith \<Rightarrow> Locals \<Rightarrow> nat \<Rightarrow> nat \<Rightarrow> BestSolution option \<Rightarrow> BestSolution option" where
  "spacer_rows A L k 0 best = best"
| "spacer_rows A L k (Suc d) best =
     spacer_rows A L (Suc k) d (angle_loop A L (counter A k) (- 17) best)"

definition best_of :: "BestSolution set \<Rightarrow> BestSolution option \<Rightarrow> bool" where
  "best_of C b = (case b of None \<Rightarrow> C = {} | Some c \<Rightarrow> c \<in> C \<and> (\<forall>c'\<in>C. error c \<le> error c'))"

definition angle_pts :: "real \<Rightarrow> real set" where
  "angle_pts a0 = {a. \<exists>n::nat. a = a0 + real n \<and> a \<le> 17}"

text \<open>The stem angles the inner loop visits.\<close>

definition angle_grid :: "real set" where
  "angle_grid = {a. \<exists>i::int. a = of_int i \<and> - 17 \<le> i \<and> i \<le> 17}"

text \<open>The candidates offered in the first \<open>n\<close> rounds of the outer loop.\<close>

definition offered :: "Arith \<Rightarrow> Locals \<Rightarrow> nat \<Rightarrow> BestSolution set" where
  "offered A L n = {c. \<exists>k<n. \<exists>a\<in>angle_grid. candidate A L (counter A k) a = Some c}"

text \<open>A pass that is not skipped and whose averaged stem length is within the bounds.\<close>

definition admissible :: "Arith \<Rightarrow> Locals \<Rightarrow> real \<Rightarrow> real \<Rightarrow> bool" where
  "admissible A L s a \<longleftrightarrow>
     \<not> \<bar>Math_cos A (effectiveAngle A L a)\<bar> < point_one A \<and>
     minStemLength L \<le> avgStemLength A L s a \<and> avgStemLength A L s a \<le> maxStemLength L"

text \<open>
  Adding 5 is exact on the multiples of 5 up to the bound \<open>mx\<close>: the spacer counter
  then runs over 0, 5, 10, ... and leaves the loop.
\<close>

definition exact_counter :: "Arith \<Rightarrow> real \<Rightarrow> bool" where
  "exact_counter A mx \<longleftrightarrow> (\<forall>j::nat. 5 * real j \<le> mx \<longrightarrow> fadd A (5 * real j) 5 = 5 * real j + 5)"

text \<open>The spacer heights the outer loop visits when its counter is exact.\<close>

definition spacer_grid :: "Locals \<Rightarrow> real set" where
  "spacer_grid L = {s. \<exists>k::nat. s = 5 * real k \<and> s \<le> maxSpacers L}"

definition rounds :: "real \<Rightarrow> nat" where
  "rounds mx = (if mx < 0 then 0 else nat \<lfloor>mx / 5\<rfloor> + 1)"

text \<open>The candidates the search is offered when the counter is exact.\<close>

definition offered_grid :: "Arith \<Rightarrow> Locals \<Rightarrow> BestSolution set" where
  "offered_grid A L = {c. \<exists>s\<in>spacer_grid L. \<exists>a\<in>angle_grid. candidate A L s a = Some c}"

subsection \<open>Exact and binary64 arithmetic\<close>

text \<open>Exact arithmetic: no rounding, the mathematical functions and constants.\<close>

definition exact_arith :: Arith where
  "exact_arith = \<lparr>fadd = (\<lambda>x y. x + y), fsub = (\<lambda>x y. x - y), fmul = (\<lambda>x y. x * y),
     fdiv = (\<lambda>x y. x / y), Math_sin = sin, Math_cos = cos, Math_tan = tan, Math_PI = pi,
     point_one = 1 / 10\<rparr>"

text \<open>The finite binary64 values: a 53-bit integer times a power of two.\<close>

definition binary64 :: "real set" where
  "binary64 = {x. \<exists>m e::int. \<bar>m\<bar> < 2 ^ 53 \<and> - 1074 \<le> e \<and> e \<le> 971 \<and> x = of_int m * 2 powi e}"

text \<open>
  Rounding to nearest: a binary64 value at the least distance. Which of two equally
  near values is taken is left open, and a magnitude above the largest binary64 value
  is rounded to it (overflow is not modelled).
\<close>

definition rnd64 :: "real \<Rightarrow> real" where
  "rnd64 x = arg_min_on (\<lambda>y. \<bar>x - y\<bar>) binary64"

text \<open>
  Binary64 arithmetic: the four operations correctly rounded, as IEEE 754 and
  ECMAScript require; the three \<^verbatim>\<open>Math\<close> functions correctly rounded too, which
  ECMAScript leaves to the engine. The numbers the calculator is given are binary64
  values themselves: a decimal literal of a caller stands for the value \<open>rnd64\<close> gives it.
\<close>

definition binary64_arith :: Arith where
  "binary64_arith = \<lparr>fadd = (\<lambda>x y. rnd64 (x + y)), fsub = (\<lambda>x y. rnd64 (x - y)),
     fmul = (\<lambda>x y. rnd64 (x * y)), fdiv = (\<lambda>x y. rnd64 (x / y)),
     Math_sin = (\<lambda>x. rnd64 (sin x)), Math_cos = (\<lambda>x. rnd64 (cos x)),
     Math_tan = (\<lambda>x. rnd64 (tan x)), Math_PI = rnd64 pi, point_one = rnd64 (1 / 10)\<rparr>"

subsection \<open>Example inputs and the claims' own formulas\<close>

text \<open>Example inputs.\<close>

definition example_frame :: "real option \<Rightarrow> FrameGeometry" where
  "example_frame hta = \<lparr>stackMm = 530, reachMm = 390, headTubeAngle = hta,
     headTubeLengthMm = None, seatTubeAngle = None, seatTubeLengthMm = None, bbDropMm = None\<rparr>"

definition example_position :: "real \<Rightarrow> real \<Rightarrow> FitPosition" where
  "example_position hs hr = \<lparr>saddleHeight = 750, saddleSetback = - 60, saddleAngle = Some (- 2),
     handlebarStack = hs, handlebarReach = hr, handlebarDrop = - 60,
     effectiveSeatTubeAngle = Some 76, gripReach = None, gripDrop = None, barReach = None,
     gripWidth = None, gripAngle = None\<rparr>"

definition example_fit :: "real \<Rightarrow> real option \<Rightarrow> RetulFitData" where
  "example_fit setback effSTA = \<lparr>fitDate = Some ''2024-03-01'', originalBike = None,
     fitPosition = (example_position 560 400)
       \<lparr>saddleSetback := setback, effectiveSeatTubeAngle := effSTA\<rparr>\<rparr>"

definition some_options :: "real option \<Rightarrow> real option \<Rightarrow> real option \<Rightarrow> real option \<Rightarrow> StemOptions" where
  "some_options maxLen minLen maxSp pref = \<lparr>opt_maxStemLength = maxLen,
     opt_minStemLength = minLen, opt_maxSpacers = maxSp, opt_preferredStemAngle = pref\<rparr>"

definition tall_frame :: FrameGeometry where
  "tall_frame = (example_frame (Some 73))\<lparr>seatTubeAngle := Some 90, seatTubeLengthMm := Some 520\<rparr>"

definition zero_length_frame :: FrameGeometry where
  "zero_length_frame = (example_frame (Some 73))\<lparr>seatTubeAngle := Some 90, seatTubeLengthMm := Some 0\<rparr>"



text \<open>What claim C3 says: the fit's angle first, then the frame's, then 73.\<close>

definition claimed_seatTubeAngle :: "FitPosition \<Rightarrow> FrameGeometry \<Rightarrow> real" where
  "claimed_seatTubeAngle fitPos newFrame =
     (case effectiveSeatTubeAngle fitPos of
        Some e \<Rightarrow> e
      | None \<Rightarrow> (case seatTubeAngle newFrame of Some a \<Rightarrow> a | None \<Rightarrow> 73))"

definition claimed_seatpostExtension :: "FitPosition \<Rightarrow> FrameGeometry \<Rightarrow> real \<Rightarrow> real" where
  "claimed_seatpostExtension fitPos newFrame len =
     Math_round (saddleHeight fitPos /
       sin ((claimed_seatTubeAngle fitPos newFrame * pi) / 180) - len)"



text \<open>Options whose spacer bound the binary64 counter never passes.\<close>

definition huge_spacer_options :: StemOptions where
  "huge_spacer_options = \<lparr>opt_maxStemLength = Some 50, opt_minStemLength = Some 100,
     opt_maxSpacers = Some (2 ^ 57), opt_preferredStemAngle = None\<rparr>"

text \<open>A target 400 mm ahead of the frame: every stem would be longer than 140 mm.\<close>

definition far_locals :: Locals where
  "far_locals = \<lparr>maxStemLength = 140, minStemLength = 60, maxSpacers = 20,
     preferredStemAngle = 6, targetStack = 530, targetReach = 790, frameStack = 530,
     frameReach = 390, htAngle = 73\<rparr>"

text \<open>
  Options with no spacers and a preferred stem angle of 17 degrees: at a head tube
  angle of 73 the preferred stem is level.
\<close>

definition level_options :: "real option \<Rightarrow> StemOptions" where
  "level_options minLen = \<lparr>opt_maxStemLength = None, opt_minStemLength = minLen,
     opt_maxSpacers = Some 0, opt_preferredStemAngle = Some 17\<rparr>"

text \<open>The constants of the search for a target level with the frame's stack.\<close>

definition level_locals :: "real \<Rightarrow> real \<Rightarrow> Locals" where
  "level_locals minLen hr = \<lparr>maxStemLength = 140, minStemLength = minLen, maxSpacers = 0,
     preferredStemAngle = 17, targetStack = 530, targetReach = hr, frameStack = 530,
     frameReach = 390, htAngle = 73\<rparr>"

text \<open>
  What claim C5 recomputes from the returned triple, in the arithmetic \<open>A\<close>: the frame's
  stack and reach, plus the spacers along the steerer, plus the stem along its
  effective angle, minus the target.
\<close>

definition recomputed_stackDelta ::
    "Arith \<Rightarrow> FitPosition \<Rightarrow> FrameGeometry \<Rightarrow> StemCalculation \<Rightarrow> real" where
  "recomputed_stackDelta A fitPos newFrame r =
     (let hta = (case headTubeAngle newFrame of None \<Rightarrow> 73 | Some h \<Rightarrow> if h = 0 then 73 else h);
          steerer = fdiv A (fmul A hta (Math_PI A)) 180;
          stem_rad = fdiv A (fmul A (fadd A (fsub A hta 90) (stemAngle r)) (Math_PI A)) 180;
          achieved = fadd A (fadd A (stackMm newFrame) (fmul A (spacerStack r) (Math_sin A steerer)))
            (fmul A (stemLength r) (Math_sin A stem_rad))
      in fsub A achieved (handlebarStack fitPos))"

definition recomputed_reachDelta ::
    "Arith \<Rightarrow> FitPosition \<Rightarrow> FrameGeometry \<Rightarrow> StemCalculation \<Rightarrow> real" where
  "recomputed_reachDelta A fitPos newFrame r =
     (let hta = (case headTubeAngle newFrame of None \<Rightarrow> 73 | Some h \<Rightarrow> if h = 0 then 73 else h);
          steerer = fdiv A (fmul A hta (Math_PI A)) 180;
          stem_rad = fdiv A (fmul A (fadd A (fsub A hta 90) (stemAngle r)) (Math_PI A)) 180;
          achieved = fadd A (fadd A (reachMm newFrame) (fmul A (spacerStack r) (Math_cos A steerer)))
            (fmul A (stemLength r) (Math_cos A stem_rad))
      in fsub A achieved (handlebarReach fitPos))"


section \<open>Lemmas\<close>

subsection \<open>The search loops\<close>

lemma counter_0 [simp]: "counter A 0 = 0"
  by (simp add: counter_def)

lemma counter_Suc: "counter A (Suc n) = fadd A (counter A n) 5"
  by (simp add: counter_def)

lemma best_of_keep_better:
  assumes "best_of C b"
  shows "best_of (C \<union> set_option c) (keep_better b c)"
  using assms
  by (auto simp: best_of_def keep_better_def split: option.splits)

lemma angle_pts_step: "a0 \<le> 17 \<Longrightarrow> angle_pts a0 = insert a0 (angle_pts (a0 + 1))"
proof (intro set_eqI iffI)
  fix a assume le: "a0 \<le> 17" and "a \<in> angle_pts a0"
  then obtain n :: nat where n: "a = a0 + real n" "a \<le> 17" by (auto simp: angle_pts_def)
  show "a \<in> insert a0 (angle_pts (a0 + 1))"
  proof (cases n)
    case 0 with n show ?thesis by simp
  next
    case (Suc m)
    with n have "a = (a0 + 1) + real m" by simp
    with n show ?thesis by (auto simp: angle_pts_def)
  qed
next
  fix a assume le: "a0 \<le> 17" and "a \<in> insert a0 (angle_pts (a0 + 1))"
  then consider "a = a0" | m :: nat where "a = a0 + 1 + real m" "a \<le> 17"
    by (auto simp: angle_pts_def)
  then show "a \<in> angle_pts a0"
  proof cases
    case 1
    then have "a = a0 + real (0::nat)" by simp
    with le 1 show ?thesis unfolding angle_pts_def by blast
  next
    case 2
    then have "a = a0 + real (Suc m)" by simp
    with 2 show ?thesis unfolding angle_pts_def by blast
  qed
qed

lemma angle_pts_empty: "\<not> a0 \<le> 17 \<Longrightarrow> angle_pts a0 = {}"
  by (auto simp: angle_pts_def)

lemma angle_loop_best_of:
  "best_of C b \<Longrightarrow>
   best_of (C \<union> {c. \<exists>a\<in>angle_pts a0. candidate A L s a = Some c}) (angle_loop A L s a0 b)"
proof (induction A L s a0 b arbitrary: C rule: angle_loop.induct)
  case (1 A L s a b)
  show ?case
  proof (cases "a \<le> 17")
    case True
    have "best_of (C \<union> set_option (candidate A L s a)) (keep_better b (candidate A L s a))"
      using "1.prems" by (rule best_of_keep_better)
    from "1.IH" [OF True this]
    have "best_of (C \<union> set_option (candidate A L s a) \<union>
        {c. \<exists>a'\<in>angle_pts (a + 1). candidate A L s a' = Some c}) (angle_loop A L s a b)"
      using True by (simp add: angle_loop.simps [of A L s a b])
    moreover have "C \<union> set_option (candidate A L s a) \<union>
        {c. \<exists>a'\<in>angle_pts (a + 1). candidate A L s a' = Some c} =
        C \<union> {c. \<exists>a'\<in>angle_pts a. candidate A L s a' = Some c}"
      by (auto simp: angle_pts_step [OF True])
    ultimately show ?thesis by simp
  next
    case False
    then show ?thesis
      using "1.prems" by (simp add: angle_pts_empty angle_loop.simps [of A L s a b])
  qed
qed

lemma angle_pts_m17: "angle_pts (- 17) = angle_grid"
proof (intro set_eqI iffI)
  fix a assume "a \<in> angle_pts (- 17)"
  then obtain n :: nat where n: "a = - 17 + real n" "a \<le> 17" by (auto simp: angle_pts_def)
  then have "a = of_int (int n - 17)" "- 17 \<le> int n - 17" "int n - 17 \<le> 17" by auto
  then show "a \<in> angle_grid" unfolding angle_grid_def by blast
next
  fix a assume "a \<in> angle_grid"
  then obtain i :: int where i: "a = of_int i" "- 17 \<le> i" "i \<le> 17" by (auto simp: angle_grid_def)
  then have "a = - 17 + real (nat (i + 17))" "a \<le> 17" by auto
  then show "a \<in> angle_pts (- 17)" unfolding angle_pts_def by blast
qed

lemma spacers_loop_unroll:
  assumes "\<forall>j<d. counter A (k + j) \<le> maxSpacers L" and "\<not> counter A (k + d) \<le> maxSpacers L"
  shows "spacers_loop A L (counter A k) best = Some (spacer_rows A L k d best)"
  using assms
proof (induction d arbitrary: k best)
  case 0
  then show ?case
    by (simp add: spacers_loop.simps [of A L "counter A k"])
next
  case (Suc d)
  from Suc.prems(1) have here: "counter A k \<le> maxSpacers L"
    by (metis add.right_neutral zero_less_Suc)
  have "\<forall>j<d. counter A (Suc k + j) \<le> maxSpacers L"
    using Suc.prems(1) by (metis Suc_less_eq add_Suc_shift)
  moreover have "\<not> counter A (Suc k + d) \<le> maxSpacers L"
    using Suc.prems(2) by simp
  ultimately have "spacers_loop A L (counter A (Suc k)) (angle_loop A L (counter A k) (- 17) best) =
      Some (spacer_rows A L (Suc k) d (angle_loop A L (counter A k) (- 17) best))"
    by (rule Suc.IH)
  then show ?case
    using here by (simp add: spacers_loop.simps [of A L "counter A k"] counter_Suc)
qed

lemma spacer_rows_best_of:
  "best_of C b \<Longrightarrow>
   best_of (C \<union> {c. \<exists>j<d. \<exists>a\<in>angle_grid. candidate A L (counter A (k + j)) a = Some c})
     (spacer_rows A L k d b)"
proof (induction d arbitrary: k b C)
  case 0
  then show ?case by simp
next
  case (Suc d)
  let ?row = "{c. \<exists>a\<in>angle_grid. candidate A L (counter A k) a = Some c}"
  have "best_of (C \<union> ?row) (angle_loop A L (counter A k) (- 17) b)"
    using angle_loop_best_of [OF Suc.prems, of "- 17" A L "counter A k"]
    by (simp add: angle_pts_m17)
  from Suc.IH [OF this, of "Suc k"]
  have "best_of (C \<union> ?row \<union>
      {c. \<exists>j<d. \<exists>a\<in>angle_grid. candidate A L (counter A (Suc k + j)) a = Some c})
      (spacer_rows A L k (Suc d) b)"
    by simp
  moreover have "C \<union> ?row \<union>
      {c. \<exists>j<d. \<exists>a\<in>angle_grid. candidate A L (counter A (Suc k + j)) a = Some c} =
      C \<union> {c. \<exists>j<Suc d. \<exists>a\<in>angle_grid. candidate A L (counter A (k + j)) a = Some c}"
  proof (intro set_eqI iffI)
    fix c assume "c \<in> C \<union> ?row \<union>
      {c. \<exists>j<d. \<exists>a\<in>angle_grid. candidate A L (counter A (Suc k + j)) a = Some c}"
    then consider "c \<in> C" | "c \<in> ?row"
      | j a where "j < d" "a \<in> angle_grid" "candidate A L (counter A (Suc k + j)) a = Some c"
      by blast
    then show "c \<in> C \<union> {c. \<exists>j<Suc d. \<exists>a\<in>angle_grid. candidate A L (counter A (k + j)) a = Some c}"
    proof cases
      case 1 then show ?thesis by simp
    next
      case 2
      then obtain a where "a \<in> angle_grid" "candidate A L (counter A (k + 0)) a = Some c" by auto
      then show ?thesis by blast
    next
      case 3
      then have "Suc j < Suc d" "candidate A L (counter A (k + Suc j)) a = Some c" by simp_all
      with 3(2) show ?thesis by blast
    qed
  next
    fix c assume "c \<in> C \<union> {c. \<exists>j<Suc d. \<exists>a\<in>angle_grid. candidate A L (counter A (k + j)) a = Some c}"
    then consider "c \<in> C"
      | j a where "j < Suc d" "a \<in> angle_grid" "candidate A L (counter A (k + j)) a = Some c"
      by blast
    then show "c \<in> C \<union> ?row \<union>
      {c. \<exists>j<d. \<exists>a\<in>angle_grid. candidate A L (counter A (Suc k + j)) a = Some c}"
    proof cases
      case 1 then show ?thesis by simp
    next
      case 2
      show ?thesis
      proof (cases j)
        case 0
        with 2 show ?thesis by auto
      next
        case (Suc j')
        with 2 have "j' < d" "candidate A L (counter A (Suc k + j')) a = Some c" by simp_all
        with 2(2) show ?thesis by blast
      qed
    qed
  qed
  ultimately show ?case by simp
qed

lemma search_exits:
  assumes "exits A (maxSpacers L) n"
  shows "\<exists>b. search A L = Some b \<and> best_of (offered A L n) b"
proof -
  from assms have "\<forall>j<n. counter A (0 + j) \<le> maxSpacers L" "\<not> counter A (0 + n) \<le> maxSpacers L"
    by (simp_all add: exits_def)
  then have "spacers_loop A L (counter A 0) None = Some (spacer_rows A L 0 n None)"
    by (rule spacers_loop_unroll)
  moreover have "best_of {} None" by (simp add: best_of_def)
  from spacer_rows_best_of [OF this, of n A L 0]
  have "best_of (offered A L n) (spacer_rows A L 0 n None)"
    by (simp add: offered_def)
  ultimately show ?thesis
    by (simp add: search_def)
qed

lemma spacers_loop_never_ends:
  assumes "spacers_loop A L s best = Some y"
  shows "\<exists>n. \<not> ((\<lambda>s. fadd A s 5) ^^ n) s \<le> maxSpacers L"
proof (rule spacers_loop.raw_induct
    [where P = "\<lambda>A L s best y. \<exists>n. \<not> ((\<lambda>s. fadd A s 5) ^^ n) s \<le> maxSpacers L", OF _ assms])
  fix loop :: "Arith \<Rightarrow> Locals \<Rightarrow> real \<Rightarrow> BestSolution option \<Rightarrow> BestSolution option option"
  fix A L s best y
  assume IH: "\<And>A L s best y. loop A L s best = Some y \<Longrightarrow>
      \<exists>n. \<not> ((\<lambda>s. fadd A s 5) ^^ n) s \<le> maxSpacers L"
    and body: "(if s \<le> maxSpacers L
        then loop A L (fadd A s 5) (angle_loop A L s (- 17) best) else Some best) = Some y"
  show "\<exists>n. \<not> ((\<lambda>s. fadd A s 5) ^^ n) s \<le> maxSpacers L"
  proof (cases "s \<le> maxSpacers L")
    case True
    with body have "loop A L (fadd A s 5) (angle_loop A L s (- 17) best) = Some y" by simp
    from IH [OF this] obtain n where "\<not> ((\<lambda>s. fadd A s 5) ^^ n) (fadd A s 5) \<le> maxSpacers L"
      by blast
    moreover have "((\<lambda>s. fadd A s 5) ^^ Suc n) s = ((\<lambda>s. fadd A s 5) ^^ n) (fadd A s 5)"
      by (simp only: funpow_Suc_right o_apply)
    ultimately have "\<not> ((\<lambda>s. fadd A s 5) ^^ Suc n) s \<le> maxSpacers L"
      by metis
    then show ?thesis by blast
  next
    case False
    then have "\<not> ((\<lambda>s. fadd A s 5) ^^ 0) s \<le> maxSpacers L" by simp
    then show ?thesis by blast
  qed
qed

lemma search_diverges:
  assumes "\<forall>n. counter A n \<le> maxSpacers L"
  shows "search A L = None"
proof (cases "search A L")
  case None
  then show ?thesis .
next
  case (Some y)
  then have "spacers_loop A L 0 None = Some y" by (simp add: search_def)
  from spacers_loop_never_ends [OF this] assms show ?thesis
    by (simp add: counter_def)
qed

lemma rounds_bound: "k < rounds mx \<longleftrightarrow> 5 * real k \<le> mx"
proof (cases "mx < 0")
  case True
  have "0 \<le> 5 * real k" by simp
  with True show ?thesis by (simp add: rounds_def)
next
  case False
  then have nn: "0 \<le> \<lfloor>mx / 5\<rfloor>" by simp
  have "k < rounds mx \<longleftrightarrow> int k \<le> \<lfloor>mx / 5\<rfloor>"
    using False nn by (simp add: rounds_def) linarith
  also have "\<dots> \<longleftrightarrow> real k \<le> mx / 5"
    by (simp add: le_floor_iff)
  also have "\<dots> \<longleftrightarrow> 5 * real k \<le> mx"
    by (simp add: field_simps)
  finally show ?thesis .
qed

lemma counter_exact:
  assumes "exact_counter A mx"
  shows "k \<le> rounds mx \<Longrightarrow> counter A k = 5 * real k"
proof (induction k)
  case 0
  show ?case by simp
next
  case (Suc k)
  then have "k < rounds mx" "counter A k = 5 * real k" by simp_all
  moreover from this(1) have "5 * real k \<le> mx" by (simp add: rounds_bound)
  ultimately show ?case
    using assms by (simp add: counter_Suc exact_counter_def algebra_simps)
qed

lemma exact_counter_exits:
  assumes "exact_counter A mx"
  shows "exits A mx (rounds mx)"
proof -
  have "counter A k \<le> mx" if "k < rounds mx" for k
    using that counter_exact [OF assms, of k] by (simp add: rounds_bound less_imp_le)
  moreover have "\<not> counter A (rounds mx) \<le> mx"
    using counter_exact [OF assms, of "rounds mx"] rounds_bound [of "rounds mx" mx] by simp
  ultimately show ?thesis
    by (simp add: exits_def)
qed

lemma offered_exact:
  assumes "exact_counter A (maxSpacers L)"
  shows "offered A L (rounds (maxSpacers L)) = offered_grid A L"
proof (intro set_eqI iffI)
  fix c assume "c \<in> offered A L (rounds (maxSpacers L))"
  then obtain k a where k: "k < rounds (maxSpacers L)" and a: "a \<in> angle_grid"
    and c: "candidate A L (counter A k) a = Some c"
    by (auto simp: offered_def)
  from k have "counter A k = 5 * real k" "5 * real k \<le> maxSpacers L"
    using counter_exact [OF assms, of k] by (simp_all add: rounds_bound less_imp_le)
  then have "counter A k \<in> spacer_grid L"
    unfolding spacer_grid_def by auto
  with a c show "c \<in> offered_grid A L"
    unfolding offered_grid_def by blast
next
  fix c assume "c \<in> offered_grid A L"
  then obtain k :: nat and a where k: "5 * real k \<le> maxSpacers L" and a: "a \<in> angle_grid"
    and c: "candidate A L (5 * real k) a = Some c"
    by (auto simp: offered_grid_def spacer_grid_def)
  from k have lt: "k < rounds (maxSpacers L)" by (simp add: rounds_bound)
  then have "counter A k = 5 * real k"
    using counter_exact [OF assms, of k] by (simp add: less_imp_le)
  with c have "candidate A L (counter A k) a = Some c" by simp
  with lt a show "c \<in> offered A L (rounds (maxSpacers L))"
    unfolding offered_def by blast
qed

lemma search_best_of:
  assumes "exact_counter A (maxSpacers L)"
  shows "\<exists>b. search A L = Some b \<and> best_of (offered_grid A L) b"
  using search_exits [OF exact_counter_exits [OF assms]] offered_exact [OF assms] by simp

lemma candidate_None_iff: "candidate A L s a = None \<longleftrightarrow> \<not> admissible A L s a"
  by (auto simp: candidate_def admissible_def)

lemma candidate_Some_iff:
  "candidate A L s a = Some c \<longleftrightarrow>
     admissible A L s a \<and>
     c = \<lparr>spacers = s, best_stemLength = Math_round (avgStemLength A L s a),
          best_stemAngle = a, error = scoredError A L s a\<rparr>"
  by (auto simp: candidate_def admissible_def)

lemma search_cases:
  assumes "exact_counter A (maxSpacers L)"
  obtains (none) "search A L = Some None"
      "\<forall>s\<in>spacer_grid L. \<forall>a\<in>angle_grid. \<not> admissible A L s a"
    | (some) b s a where "search A L = Some (Some b)" "s \<in> spacer_grid L" "a \<in> angle_grid"
      "candidate A L s a = Some b"
      "\<forall>s'\<in>spacer_grid L. \<forall>a'\<in>angle_grid. \<forall>c. candidate A L s' a' = Some c \<longrightarrow> error b \<le> error c"
proof -
  from search_best_of [OF assms] obtain r where r: "search A L = Some r" "best_of (offered_grid A L) r"
    by blast
  show thesis
  proof (cases r)
    case None
    with r(2) have empty: "offered_grid A L = {}" by (simp add: best_of_def)
    have "\<forall>s\<in>spacer_grid L. \<forall>a\<in>angle_grid. \<not> admissible A L s a"
    proof (intro ballI)
      fix s a assume sa: "s \<in> spacer_grid L" "a \<in> angle_grid"
      show "\<not> admissible A L s a"
      proof (cases "candidate A L s a")
        case None
        then show ?thesis by (simp add: candidate_None_iff)
      next
        case (Some c)
        with sa have "c \<in> offered_grid A L" unfolding offered_grid_def by blast
        with empty show ?thesis by simp
      qed
    qed
    with none r(1) None show thesis by simp
  next
    case (Some b)
    with r(2) have b: "b \<in> offered_grid A L" "\<forall>c'\<in>offered_grid A L. error b \<le> error c'"
      by (simp_all add: best_of_def)
    from b(1) obtain s a where sa: "s \<in> spacer_grid L" "a \<in> angle_grid" "candidate A L s a = Some b"
      unfolding offered_grid_def by blast
    have "\<forall>s'\<in>spacer_grid L. \<forall>a'\<in>angle_grid. \<forall>c. candidate A L s' a' = Some c \<longrightarrow> error b \<le> error c"
    proof (intro ballI allI impI)
      fix s' a' c assume "s' \<in> spacer_grid L" "a' \<in> angle_grid" "candidate A L s' a' = Some c"
      then have "c \<in> offered_grid A L" unfolding offered_grid_def by blast
      with b(2) show "error b \<le> error c" by blast
    qed
    with some r(1) Some sa show thesis by simp
  qed
qed

lemma search_unique_min:
  assumes ex: "exact_counter A (maxSpacers L)"
    and s: "s \<in> spacer_grid L" and a: "a \<in> angle_grid" and c: "candidate A L s a = Some c"
    and others: "\<And>s' a' c'. s' \<in> spacer_grid L \<Longrightarrow> a' \<in> angle_grid \<Longrightarrow>
        candidate A L s' a' = Some c' \<Longrightarrow> (s', a') \<noteq> (s, a) \<Longrightarrow> error c < error c'"
  shows "search A L = Some (Some c)"
proof (rule search_cases [OF ex], goal_cases)
  case 1
  with s a have "\<not> admissible A L s a" by blast
  with c show ?case by (simp add: candidate_Some_iff)
next
  case (2 b s' a')
  from 2(5) s a c have le: "error b \<le> error c" by blast
  have "(s', a') = (s, a)"
  proof (rule ccontr)
    assume "(s', a') \<noteq> (s, a)"
    from others [OF 2(2,3,4) this] le show False by simp
  qed
  with 2(1,4) c show ?case by simp
qed

subsection \<open>Rounding to binary64\<close>

lemma finite_binary64: "finite binary64"
proof -
  have "binary64 \<subseteq> (\<lambda>(m, e). of_int m * 2 powi e) ` ({- (2 ^ 53) .. 2 ^ 53} \<times> {- 1074 .. 971})"
  proof
    fix x assume "x \<in> binary64"
    then obtain m e :: int where me: "\<bar>m\<bar> < 2 ^ 53" "- 1074 \<le> e" "e \<le> 971" "x = of_int m * 2 powi e"
      unfolding binary64_def by blast
    then have "(m, e) \<in> {- (2 ^ 53) .. 2 ^ 53} \<times> {- 1074 .. 971}" by auto
    with me(4) show "x \<in> (\<lambda>(m, e). of_int m * 2 powi e) ` ({- (2 ^ 53) .. 2 ^ 53} \<times> {- 1074 .. 971})"
      by (metis (mono_tags, lifting) case_prod_conv image_eqI)
  qed
  then show ?thesis
    by (rule finite_subset) simp
qed

lemma binary64_of_int: "\<bar>n\<bar> < 2 ^ 53 \<Longrightarrow> of_int n \<in> binary64"
proof -
  assume "\<bar>n\<bar> < 2 ^ 53"
  then have "\<bar>n\<bar> < 2 ^ 53 \<and> - 1074 \<le> (0::int) \<and> (0::int) \<le> 971 \<and> (of_int n :: real) = of_int n * 2 powi 0"
    by simp
  then show ?thesis unfolding binary64_def by blast
qed

lemma binary64_dyadic:
  assumes "\<bar>n\<bar> < 2 ^ 53" "k \<le> 1074"
  shows "of_int n / 2 ^ k \<in> binary64"
proof -
  have "(of_int n / 2 ^ k :: real) = of_int n * 2 powi (- int k)"
    by (simp add: power_int_minus field_simps)
  with assms have "\<bar>n\<bar> < 2 ^ 53 \<and> - 1074 \<le> - int k \<and> - int k \<le> 971 \<and>
      (of_int n / 2 ^ k :: real) = of_int n * 2 powi (- int k)"
    by simp
  then show ?thesis unfolding binary64_def by blast
qed

lemma binary64_nonempty: "binary64 \<noteq> {}"
  using binary64_of_int [of 0] by auto

lemma rnd64_in: "rnd64 x \<in> binary64"
  unfolding rnd64_def by (rule arg_min_if_finite [OF finite_binary64 binary64_nonempty])

lemma rnd64_nearest: "z \<in> binary64 \<Longrightarrow> \<bar>x - rnd64 x\<bar> \<le> \<bar>x - z\<bar>"
  unfolding rnd64_def by (rule arg_min_least [OF finite_binary64 binary64_nonempty])

lemma rnd64_exact: "x \<in> binary64 \<Longrightarrow> rnd64 x = x"
  using rnd64_nearest [of x x] by simp

lemma rnd64_mono:
  assumes "x \<le> y"
  shows "rnd64 x \<le> rnd64 y"
proof (rule ccontr)
  assume "\<not> rnd64 x \<le> rnd64 y"
  then have gt: "rnd64 y < rnd64 x" by simp
  have 1: "\<bar>x - rnd64 x\<bar> \<le> \<bar>x - rnd64 y\<bar>"
    by (rule rnd64_nearest [OF rnd64_in])
  have 2: "\<bar>y - rnd64 y\<bar> \<le> \<bar>y - rnd64 x\<bar>"
    by (rule rnd64_nearest [OF rnd64_in])
  from 1 gt have "rnd64 x + rnd64 y \<le> 2 * x" by linarith
  moreover from 2 gt have "2 * y \<le> rnd64 x + rnd64 y" by linarith
  ultimately have "x = y" using assms by linarith
  with gt show False by simp
qed

lemma rnd64_of_int [simp]: "\<bar>n\<bar> < 2 ^ 53 \<Longrightarrow> rnd64 (of_int n) = of_int n"
  by (rule rnd64_exact [OF binary64_of_int])

lemma rnd64_numeral [simp]: "numeral n < (2 ^ 53 :: int) \<Longrightarrow> rnd64 (numeral n) = numeral n"
  using rnd64_of_int [of "numeral n"] by simp

lemma rnd64_neg_numeral [simp]:
  "numeral n < (2 ^ 53 :: int) \<Longrightarrow> rnd64 (- numeral n) = - numeral n"
  using rnd64_of_int [of "- numeral n"] by simp

lemma rnd64_0 [simp]: "rnd64 0 = 0"
  using rnd64_of_int [of 0] by simp

lemma rnd64_1 [simp]: "rnd64 1 = 1"
  using rnd64_of_int [of 1] by simp

lemma rnd64_half [simp]: "numeral n < (2 ^ 53 :: int) \<Longrightarrow> rnd64 (numeral n / 2) = numeral n / 2"
  using rnd64_exact [OF binary64_dyadic [of "numeral n" 1]] by simp

lemma rnd64_quarter [simp]: "numeral n < (2 ^ 53 :: int) \<Longrightarrow> rnd64 (numeral n / 4) = numeral n / 4"
  using rnd64_exact [OF binary64_dyadic [of "numeral n" 2]] by simp

lemma rnd64_one_half [simp]: "rnd64 (1 / 2) = 1 / 2"
  using rnd64_exact [OF binary64_dyadic [of 1 1]] by simp

lemma rnd64_nonneg: "0 \<le> x \<Longrightarrow> 0 \<le> rnd64 x"
  using rnd64_mono [of 0 x] by simp

lemma binary64_gap_above_2_56:
  assumes z: "z \<in> binary64" and lo: "2 ^ 56 \<le> z" and hi: "z \<le> 2 ^ 56 + 10"
  shows "z = 2 ^ 56"
proof -
  from z obtain m e :: int where me: "\<bar>m\<bar> < 2 ^ 53" "z = of_int m * 2 powi e"
    unfolding binary64_def by blast
  have pos: "(0::real) < 2 powi e" by simp
  have mpos: "0 < m"
  proof (rule ccontr)
    assume "\<not> 0 < m"
    then have "of_int m * 2 powi e \<le> (0::real)"
      using pos by (simp add: mult_le_0_iff)
    with me(2) lo show False by simp
  qed
  have e4: "4 \<le> e"
  proof (rule ccontr)
    assume "\<not> 4 \<le> e"
    then have "e \<le> 3" by simp
    then have "(2::real) powi e \<le> 2 powi 3"
      by (intro power_int_increasing) simp_all
    then have p: "(2::real) powi e \<le> 8" by simp
    have "real_of_int m < 2 ^ 53"
      using me(1) mpos by (metis abs_of_pos of_int_less_iff of_int_numeral of_int_power)
    then have "of_int m * 2 powi e < (2 ^ 53 :: real) * 8"
      using p pos mpos by (intro mult_less_le_imp_less) simp_all
    with me(2) lo show False by simp
  qed
  define j where "j = m * 2 ^ nat (e - 4)"
  have "(2::real) powi e = 2 ^ nat e"
    using e4 by (simp add: power_int_def)
  also have "nat e = 4 + nat (e - 4)"
    using e4 by simp
  also have "(2::real) ^ (4 + nat (e - 4)) = 16 * 2 ^ nat (e - 4)"
    by (simp add: power_add)
  finally have "z = 16 * of_int j"
    by (simp add: me(2) j_def)
  with lo hi have "(2 ^ 56 :: real) \<le> 16 * of_int j" "16 * real_of_int j \<le> 2 ^ 56 + 10"
    by simp_all
  then have "real_of_int (2 ^ 52) \<le> of_int j" "real_of_int j < of_int (2 ^ 52 + 1)"
    by simp_all
  then have "2 ^ 52 \<le> j" "j < 2 ^ 52 + 1"
    by (simp_all only: of_int_le_iff of_int_less_iff)
  then have "j = 2 ^ 52" by simp
  with \<open>z = 16 * of_int j\<close> show ?thesis by simp
qed

lemma binary64_2_56: "(2 ^ 56 :: real) \<in> binary64"
proof -
  have "\<bar>1::int\<bar> < 2 ^ 53 \<and> - 1074 \<le> (56::int) \<and> (56::int) \<le> 971 \<and>
      (2 ^ 56 :: real) = of_int 1 * 2 powi 56"
    by simp
  then show ?thesis unfolding binary64_def by blast
qed

lemma rnd64_stall: "rnd64 (2 ^ 56 + 5) = 2 ^ 56"
proof (rule binary64_gap_above_2_56)
  show "rnd64 (2 ^ 56 + 5) \<in> binary64" by (rule rnd64_in)
  have "rnd64 (2 ^ 56) \<le> rnd64 (2 ^ 56 + 5)"
    by (rule rnd64_mono) simp
  then show "2 ^ 56 \<le> rnd64 (2 ^ 56 + 5)"
    by (simp only: rnd64_exact [OF binary64_2_56])
  have "\<bar>(2 ^ 56 + 5) - rnd64 (2 ^ 56 + 5)\<bar> \<le> \<bar>(2 ^ 56 + 5) - 2 ^ 56 :: real\<bar>"
    by (rule rnd64_nearest [OF binary64_2_56])
  then show "rnd64 (2 ^ 56 + 5) \<le> 2 ^ 56 + 10"
    by simp
qed

lemma counter_binary64_stalls: "counter binary64_arith n \<le> 2 ^ 56"
proof (induction n)
  case 0
  show ?case by simp
next
  case (Suc n)
  have "counter binary64_arith (Suc n) = rnd64 (counter binary64_arith n + 5)"
    by (simp add: counter_Suc binary64_arith_def)
  also have "\<dots> \<le> rnd64 (2 ^ 56 + 5)"
    using Suc.IH by (intro rnd64_mono) simp
  finally show ?case
    by (simp only: rnd64_stall)
qed

lemma binary64_exact_counter:
  assumes "mx \<le> 2 ^ 52"
  shows "exact_counter binary64_arith mx"
  unfolding exact_counter_def
proof (intro allI impI)
  fix j :: nat assume "5 * real j \<le> mx"
  with assms have "5 * real j + 5 < 2 ^ 53" by simp
  then have "real_of_int (5 * int j + 5) < real_of_int (2 ^ 53)" by simp
  then have "5 * int j + 5 < 2 ^ 53" by (simp only: of_int_less_iff)
  then have "\<bar>5 * int j + 5\<bar> < 2 ^ 53" by simp
  from rnd64_of_int [OF this] have "rnd64 (5 * real j + 5) = 5 * real j + 5" by simp
  then show "fadd binary64_arith (5 * real j) 5 = 5 * real j + 5"
    by (simp add: binary64_arith_def)
qed

lemma exact_exact_counter: "exact_counter exact_arith mx"
  by (simp add: exact_counter_def exact_arith_def)

subsection \<open>The solver returns\<close>

lemma default_exact_counter: "exact_counter binary64_arith 50"
  by (rule binary64_exact_counter) simp

lemma locals_no_options_maxSpacers [simp]: "maxSpacers (locals_of fitPos newFrame no_options) = 50"
  by (simp add: locals_of_def no_options_def default_to_def)

lemma stem_returns:
  assumes "exact_counter A (maxSpacers (locals_of fitPos newFrame options))"
  shows "\<exists>r. calculateStemRequirements A fitPos newFrame options = Some r"
proof -
  from search_best_of [OF assms] obtain b where
    "search A (locals_of fitPos newFrame options) = Some b" by blast
  then show ?thesis
    by (cases b) (simp_all add: calculateStemRequirements_def)
qed

lemma setup_returns:
  assumes "exact_counter A 50"
  shows "\<exists>stem'. calculateStemRequirements A (fitPosition fitData) newFrame no_options = Some stem' \<and>
     calculateBikeSetup A fitData newFrame =
       Some \<lparr>stem = stem',
          setup_saddleHeight = saddleHeight (fitPosition fitData),
          seatpostExtension = fst (seatpost_block A (fitPosition fitData) newFrame),
          setup_saddleSetback = saddleSetback (fitPosition fitData),
          setup_saddleAngle = or_else (saddleAngle (fitPosition fitData)) 0,
          setup_effectiveSeatTubeAngle = effectiveSeatTubeAngle (fitPosition fitData),
          seatpostOffsetNeeded = fst (offset_block A (fitPosition fitData) newFrame),
          originalFitBike =
            (case originalBike fitData of
               None \<Rightarrow> None
             | Some ob \<Rightarrow> Some (bikeMake ob @ '' '' @ bikeModel ob @ '' '' @ bikeSize ob)),
          originalFitDate = fitDate fitData,
          setup_notes = stem_notes stem' @ snd (offset_block A (fitPosition fitData) newFrame) @
            (if \<bar>saddleSetback (fitPosition fitData)\<bar> < 50 then [forward_saddle_note] else []),
          warnings = snd (seatpost_block A (fitPosition fitData) newFrame)\<rparr>"
proof -
  from stem_returns [of A "fitPosition fitData" newFrame no_options] assms
  obtain stem' where "calculateStemRequirements A (fitPosition fitData) newFrame no_options = Some stem'"
    by auto
  then show ?thesis
    by (simp add: calculateBikeSetup_def Let_def split_beta)
qed

subsection \<open>calculateBikeSetup\<close>

lemma forward_not_in_stem_notes:
  assumes "calculateStemRequirements A fitPos newFrame options = Some r"
  shows "forward_saddle_note \<notin> set (stem_notes r)"
proof -
  have fb: "forward_saddle_note \<notin> set (stem_notes (fallback A L))" for L
    by (simp add: fallback_def Let_def forward_saddle_note_def not_achievable_note_def)
  have bs: "forward_saddle_note \<notin> set (stem_notes (from_best A L b))" for L b
    by (simp add: from_best_def best_notes_def Let_def forward_saddle_note_def
        handlebar_note_def nearest_common_note_def split: option.split)
  from assms show ?thesis
    using fb bs
    by (auto simp: calculateStemRequirements_def Let_def split: option.splits)
qed

lemma forward_not_in_offset_notes:
  "forward_saddle_note \<notin> set (snd (offset_block A fitPos newFrame))"
  by (simp add: offset_block_def Let_def forward_saddle_note_def steeper_note_def slacker_note_def
      split: option.split)

lemma Math_round_of_int [simp]: "Math_round (of_int n) = of_int n"
  by (simp add: Math_round_def)

lemma Math_round_numeral [simp]: "Math_round (numeral n) = numeral n"
  using Math_round_of_int [of "numeral n"] by simp

lemma sin_30_deg: "sin (30 * pi / 180) = 1 / 2"
proof -
  have "(30 * pi / 180 :: real) = pi / 6" by simp
  then show ?thesis by (simp only: sin_30)
qed

lemma exact_arith_simps [simp]:
  "fadd exact_arith x y = x + y" "fsub exact_arith x y = x - y" "fmul exact_arith x y = x * y"
  "fdiv exact_arith x y = x / y" "Math_sin exact_arith = sin" "Math_cos exact_arith = cos"
  "Math_tan exact_arith = tan" "Math_PI exact_arith = pi" "point_one exact_arith = 1 / 10"
  by (simp_all add: exact_arith_def)

lemma binary64_arith_simps [simp]:
  "fadd binary64_arith x y = rnd64 (x + y)" "fsub binary64_arith x y = rnd64 (x - y)"
  "fmul binary64_arith x y = rnd64 (x * y)" "fdiv binary64_arith x y = rnd64 (x / y)"
  "Math_sin binary64_arith x = rnd64 (sin x)" "Math_cos binary64_arith x = rnd64 (cos x)"
  "Math_tan binary64_arith x = rnd64 (tan x)" "Math_PI binary64_arith = rnd64 pi"
  "point_one binary64_arith = rnd64 (1 / 10)"
  by (simp_all add: binary64_arith_def)

lemma seatpost_block_tall_frame:
  "seatpost_block exact_arith (fitPosition (example_fit sb eff)) tall_frame =
     (Some 230, [high_extension_warning 230])"
  by (simp add: seatpost_block_def tall_frame_def example_frame_def example_fit_def
      example_position_def or_else_def Let_def)




lemma rnd64_idem [simp]: "rnd64 (rnd64 x) = rnd64 x"
  by (rule rnd64_exact [OF rnd64_in])

lemma rnd64_ge: "z \<in> binary64 \<Longrightarrow> z \<le> x \<Longrightarrow> z \<le> rnd64 x"
  using rnd64_mono [of z x] by (simp add: rnd64_exact)






subsection \<open>The fallback\<close>

lemma locals_of_explicit:
  "locals_of fitPos newFrame options =
     \<lparr>maxStemLength = (case opt_maxStemLength options of None \<Rightarrow> 140 | Some v \<Rightarrow> v),
      minStemLength = (case opt_minStemLength options of None \<Rightarrow> 60 | Some v \<Rightarrow> v),
      maxSpacers = (case opt_maxSpacers options of None \<Rightarrow> 50 | Some v \<Rightarrow> v),
      preferredStemAngle = (case opt_preferredStemAngle options of None \<Rightarrow> - 6 | Some v \<Rightarrow> v),
      targetStack = handlebarStack fitPos,
      targetReach = handlebarReach fitPos,
      frameStack = stackMm newFrame,
      frameReach = reachMm newFrame,
      htAngle = (case headTubeAngle newFrame of None \<Rightarrow> 73 | Some h \<Rightarrow> if h = 0 then 73 else h)\<rparr>"
  by (simp add: locals_of_def default_to_def or_else_def)

lemma search_none:
  assumes ex: "exact_counter A (maxSpacers L)"
    and none: "\<And>(k::nat) (i::int). 5 * real k \<le> maxSpacers L \<Longrightarrow> - 17 \<le> i \<Longrightarrow> i \<le> 17 \<Longrightarrow>
       \<not> admissible A L (5 * real k) (of_int i)"
  shows "search A L = Some None"
proof (rule search_cases [OF ex], goal_cases)
  case 1
  then show ?case by simp
next
  case (2 b s a)
  from 2(2) obtain k :: nat where k: "s = 5 * real k" "5 * real k \<le> maxSpacers L"
    by (auto simp: spacer_grid_def)
  from 2(3) obtain i :: int where i: "a = of_int i" "- 17 \<le> i" "i \<le> 17"
    by (auto simp: angle_grid_def)
  from none [OF k(2) i(2,3)] 2(4) show ?case
    by (simp add: candidate_Some_iff k(1) i(1))
qed

text \<open>Trigonometry at a head tube angle of 73 degrees.\<close>

lemma hta73_bounds: "0 < 73 * pi / 180" "73 * pi / 180 < pi / 2"
  using pi_gt_zero by simp_all

lemma sin_hta73: "0 < sin (73 * pi / 180)"
  using hta73_bounds by (intro sin_gt_zero2)

lemma cos_hta73: "0 < cos (73 * pi / 180)"
  using hta73_bounds by (intro cos_gt_zero)

lemma eff73_bounds:
  fixes i :: int
  assumes "- 17 \<le> i" "i \<le> 17"
  shows "- (pi / 2) < (73 - 90 + of_int i) * pi / 180" "(73 - 90 + of_int i) * pi / 180 \<le> 0"
proof -
  define x :: real where "x = 73 - 90 + of_int i"
  have x: "- 34 \<le> x" "x \<le> 0"
    using assms by (simp_all add: x_def)
  have "(- 34) * pi \<le> x * pi"
    using x(1) pi_gt_zero by (intro mult_right_mono) simp_all
  then have "- (pi / 2) < x * pi / 180"
    using pi_gt_zero by linarith
  then show "- (pi / 2) < (73 - 90 + of_int i) * pi / 180"
    unfolding x_def .
  have "x * pi \<le> 0 * pi"
    using x(2) pi_gt_zero by (intro mult_right_mono) simp_all
  then have "x * pi / 180 \<le> 0"
    by linarith
  then show "(73 - 90 + of_int i) * pi / 180 \<le> 0"
    unfolding x_def .
qed

lemma cos_eff73:
  fixes i :: int
  assumes "- 17 \<le> i" "i \<le> 17"
  shows "0 < cos ((73 - 90 + of_int i) * pi / 180)"
proof (rule cos_gt_zero_pi)
  show "- (pi / 2) < (73 - 90 + of_int i) * pi / 180"
    by (rule eff73_bounds [OF assms])
  show "(73 - 90 + of_int i) * pi / 180 < pi / 2"
    using eff73_bounds(2) [OF assms] pi_gt_zero by linarith
qed

lemma sin_eff73:
  fixes i :: int
  assumes "- 17 \<le> i" "i \<le> 17"
  shows "sin ((73 - 90 + of_int i) * pi / 180) \<le> 0"
proof -
  let ?e = "(73 - 90 + of_int i) * pi / 180"
  have "0 \<le> sin (- ?e)"
  proof (rule sin_ge_zero)
    show "0 \<le> - ?e" using eff73_bounds(2) [OF assms] by linarith
    show "- ?e \<le> pi" using eff73_bounds(1) [OF assms] pi_gt_zero by linarith
  qed
  then show ?thesis by simp
qed

lemma avgStemLength_ge_half_reach:
  assumes c: "0 < cos (effectiveAngle exact_arith L a)"
    and sn: "sin (effectiveAngle exact_arith L a) \<le> 0"
    and stack: "requiredStackGain exact_arith L - s * sin (htaRad exact_arith L) \<le> 0"
    and reach: "r \<le> requiredReachGain exact_arith L - s * cos (htaRad exact_arith L)" "0 \<le> r"
  shows "r / 2 \<le> avgStemLength exact_arith L s a"
proof -
  define lrv where "lrv = (requiredReachGain exact_arith L - s * cos (htaRad exact_arith L)) /
      cos (effectiveAngle exact_arith L a)"
  define lsv where "lsv = (requiredStackGain exact_arith L - s * sin (htaRad exact_arith L)) /
      sin (effectiveAngle exact_arith L a)"
  have "r * cos (effectiveAngle exact_arith L a) \<le> r * 1"
    using reach(2) by (intro mult_left_mono) simp_all
  with reach(1) have "r * cos (effectiveAngle exact_arith L a) \<le>
      requiredReachGain exact_arith L - s * cos (htaRad exact_arith L)"
    by simp
  then have lr: "r \<le> lrv"
    using c by (simp add: lrv_def le_divide_eq)
  have ls: "0 \<le> lsv"
    unfolding lsv_def using stack sn by (rule divide_nonpos_nonpos)
  have "r / 2 \<le> (lrv + (if \<bar>sin (effectiveAngle exact_arith L a)\<bar> > 1 / 10 then lsv else lrv)) / 2"
    using lr ls reach(2) by (cases "\<bar>sin (effectiveAngle exact_arith L a)\<bar> > 1 / 10") simp_all
  then show ?thesis
    unfolding avgStemLength_def Let_def lrv_def lsv_def exact_arith_simps .
qed

lemma far_locals_simps:
  "htaRad exact_arith far_locals = 73 * pi / 180"
  "effectiveAngle exact_arith far_locals a = (73 - 90 + a) * pi / 180"
  "requiredStackGain exact_arith far_locals = 0"
  "requiredReachGain exact_arith far_locals = 400"
  by (simp_all add: far_locals_def htaRad_def effectiveAngle_def requiredStackGain_def
      requiredReachGain_def)

lemma far_target_too_long:
  fixes k :: nat and i :: int
  assumes k: "5 * real k \<le> 20" and i: "- 17 \<le> i" "i \<le> 17"
  shows "140 < avgStemLength exact_arith far_locals (5 * real k) (of_int i)"
proof -
  have "5 * real k * cos (73 * pi / 180) \<le> 20 * 1"
    using k cos_hta73 by (intro mult_mono) simp_all
  then have reach: "380 \<le> requiredReachGain exact_arith far_locals -
      5 * real k * cos (htaRad exact_arith far_locals)"
    by (simp add: far_locals_simps)
  have "0 \<le> 5 * real k * sin (73 * pi / 180)"
    using sin_hta73 by simp
  then have stack: "requiredStackGain exact_arith far_locals -
      5 * real k * sin (htaRad exact_arith far_locals) \<le> 0"
    by (simp add: far_locals_simps)
  have "380 / 2 \<le> avgStemLength exact_arith far_locals (5 * real k) (of_int i)"
    using cos_eff73 [OF i] sin_eff73 [OF i] stack reach
    by (intro avgStemLength_ge_half_reach) (simp_all add: far_locals_simps)
  then show ?thesis by simp
qed

subsection \<open>A level stem\<close>

lemma locals_level:
  "locals_of (example_position 530 hr) (example_frame (Some 73)) (level_options minLen) =
     level_locals (case minLen of None \<Rightarrow> 60 | Some v \<Rightarrow> v) hr"
  by (simp add: locals_of_explicit level_locals_def example_position_def example_frame_def
      level_options_def)

lemma Math_round_close: "\<bar>Math_round x - x\<bar> \<le> 1 / 2"
  unfolding Math_round_def by linarith

lemma Math_round_mono: "x \<le> y \<Longrightarrow> Math_round x \<le> Math_round y"
  unfolding Math_round_def by (simp add: floor_mono)

lemma Math_round_Ints: "x \<in> \<int> \<Longrightarrow> Math_round x = x"
  by (auto elim!: Ints_cases)

lemma Math_round_in_Ints: "Math_round x \<in> \<int>"
  by (simp add: Math_round_def)

lemma point_one_bounds: "0 \<le> rnd64 (1 / 10)" "rnd64 (1 / 10) \<le> 1"
proof -
  show "0 \<le> rnd64 (1 / 10)" by (rule rnd64_nonneg) simp
  have "rnd64 (1 / 10) \<le> rnd64 1" by (rule rnd64_mono) simp
  then show "rnd64 (1 / 10) \<le> 1" by simp
qed

lemma rnd64_minus_1 [simp]: "rnd64 (- 1) = - 1"
  using rnd64_of_int [of "- 1"] by simp

lemma one_half_binary64: "(1 / 2 :: real) \<in> binary64"
  using binary64_dyadic [of 1 1] by simp

lemma level_effectiveAngle: "effectiveAngle binary64_arith (level_locals minLen hr) 17 = 0"
  by (simp add: effectiveAngle_def level_locals_def)

lemma level_gains:
  "requiredStackGain binary64_arith (level_locals minLen hr) = 0"
  "requiredReachGain binary64_arith (level_locals minLen hr) = rnd64 (hr - 390)"
  by (simp_all add: requiredStackGain_def requiredReachGain_def level_locals_def)

lemma level_avgStemLength:
  assumes "rnd64 (hr - 390) = g" "rnd64 (g + g) = g + g"
  shows "avgStemLength binary64_arith (level_locals minLen hr) 0 17 = g"
proof -
  have g: "rnd64 g = g"
    using assms(1) rnd64_idem [of "hr - 390"] by simp
  have "\<not> 0 > rnd64 (1 / 10)"
    using point_one_bounds(1) by simp
  then show ?thesis
    using assms(2) by (simp add: avgStemLength_def Let_def level_effectiveAngle level_gains assms(1) g)
qed

lemma level_scoredError:
  assumes "rnd64 (hr - 390) = g" "rnd64 (g + g) = g + g"
  shows "scoredError binary64_arith (level_locals minLen hr) 0 17 = 0"
proof -
  have g: "rnd64 g = g"
    using assms(1) rnd64_idem [of "hr - 390"] by simp
  have pref: "preferredStemAngle (level_locals minLen hr) = 17"
    by (simp add: level_locals_def)
  show ?thesis
    by (simp add: scoredError_def Let_def level_effectiveAngle level_gains
        level_avgStemLength [OF assms] assms(1) g pref)
qed

lemma level_stem_candidate:
  assumes g: "rnd64 (hr - 390) = g" "rnd64 (g + g) = g + g" and len: "minLen \<le> g" "g \<le> 140"
  shows "candidate binary64_arith (level_locals minLen hr) 0 17 =
     Some \<lparr>spacers = 0, best_stemLength = Math_round g, best_stemAngle = 17, error = 0\<rparr>"
proof -
  have "admissible binary64_arith (level_locals minLen hr) 0 17"
    using len point_one_bounds(2)
    by (simp add: admissible_def level_effectiveAngle level_avgStemLength [OF g])
      (simp add: level_locals_def)
  then show ?thesis
    by (simp add: candidate_Some_iff level_avgStemLength [OF g] level_scoredError [OF g])
qed

text \<open>A stem angle below the preferred one costs at least half a point.\<close>

lemma scoredError_ge_penalty:
  assumes "a \<le> preferredStemAngle L - 1"
  shows "1 / 2 \<le> scoredError binary64_arith L s a"
proof -
  define total where "total = rnd64 (
      \<bar>rnd64 (rnd64 (rnd64 (s * rnd64 (cos (htaRad binary64_arith L))) +
          rnd64 (avgStemLength binary64_arith L s a *
            rnd64 (cos (effectiveAngle binary64_arith L a)))) -
        requiredReachGain binary64_arith L)\<bar> +
      \<bar>rnd64 (rnd64 (rnd64 (s * rnd64 (sin (htaRad binary64_arith L))) +
          rnd64 (avgStemLength binary64_arith L s a *
            rnd64 (sin (effectiveAngle binary64_arith L a)))) -
        requiredStackGain binary64_arith L)\<bar>)"
  define penalty where "penalty = rnd64 (\<bar>rnd64 (a - preferredStemAngle L)\<bar> * (5 / 10))"
  have score: "scoredError binary64_arith L s a = rnd64 (total + penalty)"
    by (simp add: scoredError_def Let_def total_def penalty_def)
  have total: "0 \<le> total"
    unfolding total_def by (rule rnd64_nonneg) simp
  have "rnd64 (a - preferredStemAngle L) \<le> rnd64 (- 1)"
    using assms by (intro rnd64_mono) simp
  then have "1 \<le> \<bar>rnd64 (a - preferredStemAngle L)\<bar>"
    by simp
  then have "1 / 2 \<le> \<bar>rnd64 (a - preferredStemAngle L)\<bar> * (5 / 10)"
    by simp
  then have "1 / 2 \<le> penalty"
    unfolding penalty_def by (rule rnd64_ge [OF one_half_binary64])
  with total have "1 / 2 \<le> total + penalty" by simp
  then have "1 / 2 \<le> rnd64 (total + penalty)"
    by (rule rnd64_ge [OF one_half_binary64])
  then show ?thesis
    by (simp only: score)
qed

lemma level_stem_search:
  assumes g: "rnd64 (hr - 390) = g" "rnd64 (g + g) = g + g" and len: "minLen \<le> g" "g \<le> 140"
  shows "search binary64_arith (level_locals minLen hr) =
     Some (Some \<lparr>spacers = 0, best_stemLength = Math_round g, best_stemAngle = 17, error = 0\<rparr>)"
proof (rule search_unique_min)
  let ?L = "level_locals minLen hr"
  have mx: "maxSpacers ?L = 0"
    by (simp add: level_locals_def)
  show "exact_counter binary64_arith (maxSpacers ?L)"
    unfolding mx by (rule binary64_exact_counter) simp
  have "0 = 5 * real (0::nat)" "(0::real) \<le> maxSpacers ?L"
    by (simp_all add: mx)
  then show "0 \<in> spacer_grid ?L"
    unfolding spacer_grid_def by blast
  have "(17::real) = of_int 17" "- 17 \<le> (17::int)" "(17::int) \<le> 17"
    by simp_all
  then show "17 \<in> angle_grid"
    unfolding angle_grid_def by blast
  show "candidate binary64_arith ?L 0 17 =
     Some \<lparr>spacers = 0, best_stemLength = Math_round g, best_stemAngle = 17, error = 0\<rparr>"
    by (rule level_stem_candidate [OF g len])
  fix s' a' c'
  assume s': "s' \<in> spacer_grid ?L" and a': "a' \<in> angle_grid"
    and c': "candidate binary64_arith ?L s' a' = Some c'" and ne: "(s', a') \<noteq> (0, 17)"
  from s' obtain k :: nat where k: "s' = 5 * real k" "5 * real k \<le> 0"
    by (auto simp: spacer_grid_def mx)
  then have "s' = 0" by simp
  with ne have ne17: "a' \<noteq> 17" by simp
  from a' obtain i :: int where i: "a' = of_int i" "- 17 \<le> i" "i \<le> 17"
    by (auto simp: angle_grid_def)
  from ne17 i have "i \<le> 16" by auto
  then have "(of_int i :: real) \<le> of_int 16"
    by (simp only: of_int_le_iff)
  then have "a' \<le> preferredStemAngle ?L - 1"
    by (simp add: i(1) level_locals_def)
  then have "1 / 2 \<le> scoredError binary64_arith ?L s' a'"
    by (rule scoredError_ge_penalty)
  moreover have "error c' = scoredError binary64_arith ?L s' a'"
    using c' by (auto simp: candidate_Some_iff)
  ultimately show "error \<lparr>spacers = 0, best_stemLength = Math_round g, best_stemAngle = 17,
      error = 0\<rparr> < error c'"
    by simp
qed

lemma level_stem_deltas:
  assumes "rnd64 m = m"
  shows "best_stackDelta binary64_arith (level_locals minLen hr)
       \<lparr>spacers = 0, best_stemLength = m, best_stemAngle = 17, error = 0\<rparr> = 0"
    and "best_reachDelta binary64_arith (level_locals minLen hr)
       \<lparr>spacers = 0, best_stemLength = m, best_stemAngle = 17, error = 0\<rparr> =
       rnd64 (rnd64 (390 + m) - hr)"
proof -
  have sel: "frameStack (level_locals minLen hr) = 530" "targetStack (level_locals minLen hr) = 530"
    "frameReach (level_locals minLen hr) = 390" "targetReach (level_locals minLen hr) = hr"
    by (simp_all add: level_locals_def)
  show "best_stackDelta binary64_arith (level_locals minLen hr)
       \<lparr>spacers = 0, best_stemLength = m, best_stemAngle = 17, error = 0\<rparr> = 0"
    by (simp add: best_stackDelta_def Let_def level_effectiveAngle sel)
  show "best_reachDelta binary64_arith (level_locals minLen hr)
       \<lparr>spacers = 0, best_stemLength = m, best_stemAngle = 17, error = 0\<rparr> =
       rnd64 (rnd64 (390 + m) - hr)"
    by (simp add: best_reachDelta_def Let_def level_effectiveAngle sel assms)
qed

lemma stem_result_cases:
  assumes ex: "exact_counter A (maxSpacers L)"
    and L: "locals_of fitPos newFrame options = L"
  obtains (fallback) "calculateStemRequirements A fitPos newFrame options = Some (fallback A L)"
      "\<forall>s\<in>spacer_grid L. \<forall>a\<in>angle_grid. \<not> admissible A L s a"
    | (found) s a where "s \<in> spacer_grid L" "a \<in> angle_grid" "admissible A L s a"
      "calculateStemRequirements A fitPos newFrame options =
         Some (from_best A L \<lparr>spacers = s, best_stemLength = Math_round (avgStemLength A L s a),
           best_stemAngle = a, error = scoredError A L s a\<rparr>)"
proof -
  show thesis
  proof (rule search_cases [OF ex], goal_cases)
  case 1
  then show ?case
    using fallback by (simp add: calculateStemRequirements_def L)
next
  case (2 b s a)
  from 2(4) have adm: "admissible A L s a"
    and b: "b = \<lparr>spacers = s, best_stemLength = Math_round (avgStemLength A L s a),
           best_stemAngle = a, error = scoredError A L s a\<rparr>"
    by (simp_all add: candidate_Some_iff)
  have "calculateStemRequirements A fitPos newFrame options = Some (from_best A L b)"
    using 2(1) by (simp add: calculateStemRequirements_def L)
  with found [OF 2(2,3) adm] show ?case
    by (simp add: b)
qed
qed

lemma recomputed_from_best:
  assumes "locals_of fitPos newFrame options = L"
  shows "recomputed_stackDelta A fitPos newFrame (from_best A L b) = best_stackDelta A L b"
    and "recomputed_reachDelta A fitPos newFrame (from_best A L b) = best_reachDelta A L b"
  by (simp_all add: assms [symmetric] locals_of_explicit recomputed_stackDelta_def
      recomputed_reachDelta_def from_best_def best_stackDelta_def best_reachDelta_def Let_def
      htaRad_def effectiveAngle_def)

lemma rnd64_minus_quarter [simp]: "rnd64 (- (1 / 4)) = - (1 / 4)"
  using rnd64_exact [OF binary64_dyadic [of "- 1" 2]] by simp

lemma level_stem_result:
  assumes g: "rnd64 (hr - 390) = g" "rnd64 (g + g) = g + g"
    and len: "(case minLen of None \<Rightarrow> 60 | Some v \<Rightarrow> v) \<le> g" "g \<le> 140"
    and m: "Math_round g = m" "rnd64 m = m"
  shows "calculateStemRequirements binary64_arith (example_position 530 hr)
       (example_frame (Some 73)) (level_options minLen) =
     Some \<lparr>stemLength = m, stemAngle = 17, spacerStack = 0, stackDelta = 0,
       reachDelta = Math_round (rnd64 (rnd64 (390 + m) - hr)),
       isAchievable = (\<bar>rnd64 (rnd64 (390 + m) - hr)\<bar> \<le> 10),
       stem_notes = best_notes binary64_arith
         (level_locals (case minLen of None \<Rightarrow> 60 | Some v \<Rightarrow> v) hr)
         \<lparr>spacers = 0, best_stemLength = m, best_stemAngle = 17, error = 0\<rparr>\<rparr>"
proof -
  have zero: "Math_round 0 = 0"
    using Math_round_of_int [of 0] by simp
  show ?thesis
    by (simp add: calculateStemRequirements_def locals_level level_stem_search [OF g len]
        from_best_def level_stem_deltas [OF m(2)] m(1) zero)
qed

lemma level_stem_401_4:
  "calculateStemRequirements binary64_arith (example_position 530 (1961 / 4))
       (example_frame (Some 73)) (level_options (Some (401 / 4))) =
     Some \<lparr>stemLength = 100, stemAngle = 17, spacerStack = 0, stackDelta = 0,
       reachDelta = 0, isAchievable = True,
       stem_notes = best_notes binary64_arith (level_locals (401 / 4) (1961 / 4))
         \<lparr>spacers = 0, best_stemLength = 100, best_stemAngle = 17, error = 0\<rparr>\<rparr>"
proof -
  have g: "rnd64 (1961 / 4 - 390) = 401 / 4" "rnd64 (401 / 4 + 401 / 4) = 401 / 4 + 401 / 4"
    by simp_all
  have len: "(case Some (401 / 4 :: real) of None \<Rightarrow> 60 | Some v \<Rightarrow> v) \<le> 401 / 4"
    "(401 / 4 :: real) \<le> 140"
    by simp_all
  have m: "Math_round (401 / 4) = 100" "rnd64 100 = 100"
    by (simp_all add: Math_round_def)
  have d: "rnd64 (rnd64 (390 + 100) - 1961 / 4) = - (1 / 4)"
    by simp
  have "Math_round (- (1 / 4)) = 0"
    by (simp add: Math_round_def)
  with level_stem_result [OF g len m] show ?thesis
    by (simp add: d)
qed

lemma level_stem_201_2:
  "calculateStemRequirements binary64_arith (example_position 530 (981 / 2))
       (example_frame (Some 73)) (level_options None) =
     Some \<lparr>stemLength = 101, stemAngle = 17, spacerStack = 0, stackDelta = 0,
       reachDelta = 1, isAchievable = True,
       stem_notes = best_notes binary64_arith (level_locals 60 (981 / 2))
         \<lparr>spacers = 0, best_stemLength = 101, best_stemAngle = 17, error = 0\<rparr>\<rparr>"
proof -
  have g: "rnd64 (981 / 2 - 390) = 201 / 2" "rnd64 (201 / 2 + 201 / 2) = 201 / 2 + 201 / 2"
    by simp_all
  have len: "(case None :: real option of None \<Rightarrow> 60 | Some v \<Rightarrow> v) \<le> 201 / 2"
    "(201 / 2 :: real) \<le> 140"
    by simp_all
  have m: "Math_round (201 / 2) = 101" "rnd64 101 = 101"
    by (simp_all add: Math_round_def)
  have d: "rnd64 (rnd64 (390 + 101) - 981 / 2) = 1 / 2"
    by simp
  have "Math_round (1 / 2) = 1"
    by (simp add: Math_round_def)
  with level_stem_result [OF g len m] show ?thesis
    by (simp add: d)
qed

subsection \<open>The zero-gap scenario\<close>











section \<open>The claims\<close>

text \<open>
  Claim C1 says the fallback is returned for every input without a candidate within
  the length bounds. It is not: with \<open>maxSpacers = 2\<^sup>5\<^sup>7\<close> (and a minimum stem length
  above the maximum, so that no candidate is within the bounds) the binary64 spacer
  counter stops increasing at \<open>2\<^sup>5\<^sup>6\<close>, the outer loop never ends, and nothing is
  returned.
\<close>

theorem fallback_when_no_candidate_counterexample:
  "opt_minStemLength huge_spacer_options = Some 100 \<and>
   opt_maxStemLength huge_spacer_options = Some 50 \<and>
   calculateStemRequirements binary64_arith (example_position 560 400) (example_frame (Some 73))
     huge_spacer_options = None"
proof -
  let ?L = "locals_of (example_position 560 400) (example_frame (Some 73)) huge_spacer_options"
  have mx: "maxSpacers ?L = 2 ^ 57"
    by (simp add: locals_of_def huge_spacer_options_def default_to_def)
  have "\<forall>n. counter binary64_arith n \<le> maxSpacers ?L"
  proof
    fix n
    have "counter binary64_arith n \<le> 2 ^ 56" by (rule counter_binary64_stalls)
    also have "(2 ^ 56 :: real) \<le> 2 ^ 57" by simp
    finally show "counter binary64_arith n \<le> maxSpacers ?L" by (simp only: mx)
  qed
  then have "search binary64_arith ?L = None"
    by (rule search_diverges)
  then show ?thesis
    by (simp add: calculateStemRequirements_def huge_spacer_options_def)
qed

text \<open>
  C1. For every input for which no (spacer, stem angle) candidate of the search grid
  yields an averaged stem length within \<open>[minStemLength, maxStemLength]\<close> (the pass is
  skipped, or the length is out of bounds), and whose spacer counter advances exactly
  by 5 up to \<open>maxSpacers\<close> (in binary64 every \<open>maxSpacers\<close> up to \<open>2\<^sup>5\<^sup>2\<close>),
  \<open>calculateStemRequirements\<close> returns, and returns the fallback:
  \<open>spacerStack = maxSpacers\<close>, \<open>stemLength = 100\<close>, \<open>stemAngle = preferredStemAngle\<close>,
  \<open>isAchievable = false\<close>, the deltas achieved minus target for that configuration in
  the machine's arithmetic, and the single note that the exact fit position may not be
  achievable. The configuration is read off the inputs: an option that is missing
  takes its default (140, 60, 50, -6), and a head tube angle that is missing or 0 is 73.
\<close>

theorem fallback_when_no_candidate:
  assumes maxLen: "maxLen = (case opt_maxStemLength options of None \<Rightarrow> 140 | Some v \<Rightarrow> v)"
    and minLen: "minLen = (case opt_minStemLength options of None \<Rightarrow> 60 | Some v \<Rightarrow> v)"
    and maxSp: "maxSp = (case opt_maxSpacers options of None \<Rightarrow> 50 | Some v \<Rightarrow> v)"
    and pref: "pref = (case opt_preferredStemAngle options of None \<Rightarrow> - 6 | Some v \<Rightarrow> v)"
    and hta: "hta = (case headTubeAngle newFrame of None \<Rightarrow> 73
                     | Some h \<Rightarrow> if h = 0 then 73 else h)"
    and L: "L = \<lparr>maxStemLength = maxLen, minStemLength = minLen, maxSpacers = maxSp,
         preferredStemAngle = pref, targetStack = handlebarStack fitPos,
         targetReach = handlebarReach fitPos, frameStack = stackMm newFrame,
         frameReach = reachMm newFrame, htAngle = hta\<rparr>"
    and counter: "exact_counter A maxSp"
    and none: "\<forall>k::nat. \<forall>i::int. 5 * real k \<le> maxSp \<and> - 17 \<le> i \<and> i \<le> 17 \<longrightarrow>
       \<bar>Math_cos A (effectiveAngle A L (of_int i))\<bar> < point_one A \<or>
       avgStemLength A L (5 * real k) (of_int i) < minLen \<or>
       maxLen < avgStemLength A L (5 * real k) (of_int i)"
    and hrad: "hrad = fdiv A (fmul A hta (Math_PI A)) 180"
    and erad: "erad = fdiv A (fmul A (fadd A (fsub A hta 90) pref) (Math_PI A)) 180"
  shows "calculateStemRequirements A fitPos newFrame options =
     Some \<lparr>stemLength = 100,
      stemAngle = pref,
      spacerStack = maxSp,
      stackDelta = fsub A (fadd A (fadd A (stackMm newFrame) (fmul A maxSp (Math_sin A hrad)))
         (fmul A 100 (Math_sin A erad))) (handlebarStack fitPos),
      reachDelta = fsub A (fadd A (fadd A (reachMm newFrame) (fmul A maxSp (Math_cos A hrad)))
         (fmul A 100 (Math_cos A erad))) (handlebarReach fitPos),
      isAchievable = False,
      stem_notes = [[Lit ''Exact fit position may not be achievable with standard components'']]\<rparr>"
proof -
  have L': "locals_of fitPos newFrame options = L"
    unfolding L maxLen minLen maxSp pref hta by (rule locals_of_explicit)
  have sel: "maxSpacers L = maxSp" "minStemLength L = minLen" "maxStemLength L = maxLen"
    "preferredStemAngle L = pref" "htAngle L = hta" "frameStack L = stackMm newFrame"
    "frameReach L = reachMm newFrame" "targetStack L = handlebarStack fitPos"
    "targetReach L = handlebarReach fitPos"
    by (simp_all add: L)
  have "search A L = Some None"
  proof (rule search_none)
    show "exact_counter A (maxSpacers L)"
      using counter by (simp only: sel)
  next
    fix k :: nat and i :: int
    assume "5 * real k \<le> maxSpacers L" "- 17 \<le> i" "i \<le> 17"
    with none have "\<bar>Math_cos A (effectiveAngle A L (of_int i))\<bar> < point_one A \<or>
       avgStemLength A L (5 * real k) (of_int i) < minLen \<or>
       maxLen < avgStemLength A L (5 * real k) (of_int i)"
      by (simp only: sel)
    then show "\<not> admissible A L (5 * real k) (of_int i)"
      unfolding admissible_def sel by linarith
  qed
  then have "calculateStemRequirements A fitPos newFrame options = Some (fallback A L)"
    by (simp add: calculateStemRequirements_def L')
  then show ?thesis
    by (simp add: fallback_def Let_def not_achievable_note_def sel htaRad_def effectiveAngle_def
        hrad erad)
qed

text \<open>
  Two instances with options of their own (20 mm of spacers, a preferred angle of 6):
  in exact arithmetic a target 400 mm ahead of the frame, where each of the 5 by 35
  grid points gives a stem longer than 140 mm, with the head tube angle missing; and
  in binary64 a minimum stem length above the maximum, at a head tube angle of 72.
\<close>

theorem fallback_when_no_candidate_witness:
  "calculateStemRequirements exact_arith (example_position 530 790) (example_frame None)
       (some_options None None (Some 20) (Some 6)) =
     Some \<lparr>stemLength = 100, stemAngle = 6, spacerStack = 20,
      stackDelta = (530 + 20 * sin (73 * pi / 180) + 100 * sin ((73 - 90 + 6) * pi / 180)) - 530,
      reachDelta = (390 + 20 * cos (73 * pi / 180) + 100 * cos ((73 - 90 + 6) * pi / 180)) - 790,
      isAchievable = False,
      stem_notes = [[Lit ''Exact fit position may not be achievable with standard components'']]\<rparr> \<and>
   calculateStemRequirements binary64_arith (example_position 560 400) (example_frame (Some 72))
       (some_options (Some 50) (Some 100) (Some 20) (Some 6)) =
     Some \<lparr>stemLength = 100, stemAngle = 6, spacerStack = 20,
      stackDelta = rnd64 (rnd64 (rnd64 (530 + rnd64 (20 * rnd64 (sin (rnd64 (rnd64 (72 * rnd64 pi) / 180))))) +
         rnd64 (100 * rnd64 (sin (rnd64 (rnd64 (rnd64 (rnd64 (72 - 90) + 6) * rnd64 pi) / 180))))) - 560),
      reachDelta = rnd64 (rnd64 (rnd64 (390 + rnd64 (20 * rnd64 (cos (rnd64 (rnd64 (72 * rnd64 pi) / 180))))) +
         rnd64 (100 * rnd64 (cos (rnd64 (rnd64 (rnd64 (rnd64 (72 - 90) + 6) * rnd64 pi) / 180))))) - 400),
      isAchievable = False,
      stem_notes = [[Lit ''Exact fit position may not be achievable with standard components'']]\<rparr>"
proof -
  let ?far = "example_position 530 790" and ?near = "example_position 560 400"
  let ?o1 = "some_options None None (Some 20) (Some 6)"
  let ?o2 = "some_options (Some 50) (Some 100) (Some 20) (Some 6)"
  have o1: "140 = (case opt_maxStemLength ?o1 of None \<Rightarrow> 140 | Some v \<Rightarrow> v)"
    "60 = (case opt_minStemLength ?o1 of None \<Rightarrow> 60 | Some v \<Rightarrow> v)"
    "20 = (case opt_maxSpacers ?o1 of None \<Rightarrow> 50 | Some v \<Rightarrow> v)"
    "6 = (case opt_preferredStemAngle ?o1 of None \<Rightarrow> - 6 | Some v \<Rightarrow> v)"
    "73 = (case headTubeAngle (example_frame None) of None \<Rightarrow> 73
           | Some h \<Rightarrow> if h = 0 then 73 else h)"
    by (simp_all add: some_options_def example_frame_def)
  have L1: "far_locals = \<lparr>maxStemLength = 140, minStemLength = 60, maxSpacers = 20,
         preferredStemAngle = 6, targetStack = handlebarStack ?far,
         targetReach = handlebarReach ?far, frameStack = stackMm (example_frame None),
         frameReach = reachMm (example_frame None), htAngle = 73\<rparr>"
    by (simp add: far_locals_def example_position_def example_frame_def)
  have none1: "\<forall>k::nat. \<forall>i::int. 5 * real k \<le> 20 \<and> - 17 \<le> i \<and> i \<le> 17 \<longrightarrow>
       \<bar>Math_cos exact_arith (effectiveAngle exact_arith far_locals (of_int i))\<bar>
          < point_one exact_arith \<or>
       avgStemLength exact_arith far_locals (5 * real k) (of_int i) < 60 \<or>
       140 < avgStemLength exact_arith far_locals (5 * real k) (of_int i)"
    using far_target_too_long by blast
  have first: "calculateStemRequirements exact_arith ?far (example_frame None) ?o1 =
     Some \<lparr>stemLength = 100, stemAngle = 6, spacerStack = 20,
      stackDelta = (530 + 20 * sin (73 * pi / 180) + 100 * sin ((73 - 90 + 6) * pi / 180)) - 530,
      reachDelta = (390 + 20 * cos (73 * pi / 180) + 100 * cos ((73 - 90 + 6) * pi / 180)) - 790,
      isAchievable = False,
      stem_notes = [[Lit ''Exact fit position may not be achievable with standard components'']]\<rparr>"
    using fallback_when_no_candidate [OF o1 L1 exact_exact_counter none1 refl refl]
    by (simp add: example_position_def example_frame_def)
  have o2: "50 = (case opt_maxStemLength ?o2 of None \<Rightarrow> 140 | Some v \<Rightarrow> v)"
    "100 = (case opt_minStemLength ?o2 of None \<Rightarrow> 60 | Some v \<Rightarrow> v)"
    "20 = (case opt_maxSpacers ?o2 of None \<Rightarrow> 50 | Some v \<Rightarrow> v)"
    "6 = (case opt_preferredStemAngle ?o2 of None \<Rightarrow> - 6 | Some v \<Rightarrow> v)"
    "72 = (case headTubeAngle (example_frame (Some 72)) of None \<Rightarrow> 73
           | Some h \<Rightarrow> if h = 0 then 73 else h)"
    by (simp_all add: some_options_def example_frame_def)
  define L2 where "L2 = \<lparr>maxStemLength = 50, minStemLength = 100, maxSpacers = 20,
         preferredStemAngle = 6, targetStack = handlebarStack ?near,
         targetReach = handlebarReach ?near, frameStack = stackMm (example_frame (Some 72)),
         frameReach = reachMm (example_frame (Some 72)), htAngle = 72\<rparr>"
  have counter2: "exact_counter binary64_arith 20"
    by (rule binary64_exact_counter) simp
  have "x < 100 \<or> 50 < x" for x :: real
    by arith
  then have none2: "\<forall>k::nat. \<forall>i::int. 5 * real k \<le> 20 \<and> - 17 \<le> i \<and> i \<le> 17 \<longrightarrow>
       \<bar>Math_cos binary64_arith (effectiveAngle binary64_arith L2 (of_int i))\<bar>
          < point_one binary64_arith \<or>
       avgStemLength binary64_arith L2 (5 * real k) (of_int i) < 100 \<or>
       50 < avgStemLength binary64_arith L2 (5 * real k) (of_int i)"
    by blast
  have second: "calculateStemRequirements binary64_arith ?near (example_frame (Some 72)) ?o2 =
     Some \<lparr>stemLength = 100, stemAngle = 6, spacerStack = 20,
      stackDelta = rnd64 (rnd64 (rnd64 (530 + rnd64 (20 * rnd64 (sin (rnd64 (rnd64 (72 * rnd64 pi) / 180))))) +
         rnd64 (100 * rnd64 (sin (rnd64 (rnd64 (rnd64 (rnd64 (72 - 90) + 6) * rnd64 pi) / 180))))) - 560),
      reachDelta = rnd64 (rnd64 (rnd64 (390 + rnd64 (20 * rnd64 (cos (rnd64 (rnd64 (72 * rnd64 pi) / 180))))) +
         rnd64 (100 * rnd64 (cos (rnd64 (rnd64 (rnd64 (rnd64 (72 - 90) + 6) * rnd64 pi) / 180))))) - 400),
      isAchievable = False,
      stem_notes = [[Lit ''Exact fit position may not be achievable with standard components'']]\<rparr>"
    using fallback_when_no_candidate [OF o2 L2_def counter2 none2 refl refl]
    by (simp add: example_position_def example_frame_def)
  from first second show ?thesis by (rule conjI)
qed



text \<open>
  Claim C3 takes the fit's angle first. The code takes the frame's: with a fit angle
  of 30 degrees and a frame angle of 90 the extension is \<open>750 / sin 90 deg - 520 = 230\<close>,
  where the claim gives \<open>750 / sin 30 deg - 520 = 980\<close>. And a seat tube length that is
  present but 0 gives no extension at all.
\<close>

theorem claimed_seatpostExtension_counterexample:
  "seatTubeLengthMm tall_frame = Some 520 \<and>
   map_option seatpostExtension
     (calculateBikeSetup exact_arith (example_fit (- 60) (Some 30)) tall_frame) = Some (Some 230) \<and>
   claimed_seatpostExtension (fitPosition (example_fit (- 60) (Some 30))) tall_frame 520 = 980 \<and>
   seatTubeLengthMm zero_length_frame = Some 0 \<and>
   map_option seatpostExtension
     (calculateBikeSetup binary64_arith (example_fit (- 60) (Some 30)) zero_length_frame) = Some None"
proof -
  have "claimed_seatTubeAngle (fitPosition (example_fit (- 60) (Some 30))) tall_frame = 30"
    by (simp add: claimed_seatTubeAngle_def example_fit_def example_position_def)
  then have "claimed_seatpostExtension (fitPosition (example_fit (- 60) (Some 30))) tall_frame 520 =
      Math_round (750 / sin (30 * pi / 180) - 520)"
    by (simp add: claimed_seatpostExtension_def example_fit_def example_position_def)
  also have "\<dots> = 980"
    by (simp only: sin_30_deg) simp
  finally have claimed:
    "claimed_seatpostExtension (fitPosition (example_fit (- 60) (Some 30))) tall_frame 520 = 980" .
  have len: "seatTubeLengthMm tall_frame = Some 520" "seatTubeLengthMm zero_length_frame = Some 0"
    by (simp_all add: tall_frame_def zero_length_frame_def)
  from setup_returns [OF exact_exact_counter, of "example_fit (- 60) (Some 30)" tall_frame]
  have code: "map_option seatpostExtension
     (calculateBikeSetup exact_arith (example_fit (- 60) (Some 30)) tall_frame) = Some (Some 230)"
    by (auto simp: seatpost_block_tall_frame)
  have "seatpost_block binary64_arith (fitPosition (example_fit (- 60) (Some 30))) zero_length_frame
      = (None, [])"
    by (simp add: seatpost_block_def zero_length_frame_def)
  with setup_returns [OF default_exact_counter, of "example_fit (- 60) (Some 30)" zero_length_frame]
  have zero: "map_option seatpostExtension
     (calculateBikeSetup binary64_arith (example_fit (- 60) (Some 30)) zero_length_frame) = Some None"
    by auto
  from claimed len code zero show ?thesis by simp
qed

text \<open>
  C3, as the code has it. The seat tube angle of \<open>calculateBikeSetup\<close> is the frame's
  \<open>seatTubeAngle\<close> when it is present and not 0, else the fit's
  \<open>effectiveSeatTubeAngle\<close> when it is present and not 0, else 73. Whenever the
  frame's \<open>seatTubeLengthMm\<close> is present and not 0 (and the sine of that angle is not
  0), the returned \<open>seatpostExtension\<close> is
  \<open>round (saddleHeight / sin (angle in radians) - seatTubeLengthMm)\<close> in the machine's
  arithmetic; when the length is missing or 0 it is \<open>null\<close>.
\<close>

theorem seatpostExtension_along_frame_angle:
  assumes ex: "exact_counter A 50"
    and angle: "angle =
      (case seatTubeAngle newFrame of
         Some a \<Rightarrow> if a \<noteq> 0 then Some a else None
       | None \<Rightarrow> None)"
    and fit_angle: "fit_angle =
      (case effectiveSeatTubeAngle (fitPosition fitData) of
         Some e \<Rightarrow> if e \<noteq> 0 then e else 73
       | None \<Rightarrow> 73)"
    and staRad: "staRad =
      fdiv A (fmul A (case angle of Some a \<Rightarrow> a | None \<Rightarrow> fit_angle) (Math_PI A)) 180"
  shows "\<exists>r. calculateBikeSetup A fitData newFrame = Some r \<and>
     (\<forall>len. seatTubeLengthMm newFrame = Some len \<and> len \<noteq> 0 \<and> Math_sin A staRad \<noteq> 0 \<longrightarrow>
        seatpostExtension r =
          Some (Math_round
            (fsub A (fdiv A (saddleHeight (fitPosition fitData)) (Math_sin A staRad)) len))) \<and>
     (seatTubeLengthMm newFrame = None \<or> seatTubeLengthMm newFrame = Some 0 \<longrightarrow>
        seatpostExtension r = None)"
proof -
  from setup_returns [OF ex, of fitData newFrame] obtain r where
    r: "calculateBikeSetup A fitData newFrame = Some r"
    and ext: "seatpostExtension r = fst (seatpost_block A (fitPosition fitData) newFrame)"
    by force
  have "or_else (seatTubeAngle newFrame) (or_else (effectiveSeatTubeAngle (fitPosition fitData)) 73)
      = (case angle of Some a \<Rightarrow> a | None \<Rightarrow> fit_angle)"
    by (simp add: angle fit_angle or_else_def split: option.splits)
  then show ?thesis
    using r by (auto simp: ext staRad seatpost_block_def Let_def)
qed

text \<open>
  The frame of the counterexample in exact arithmetic (extension 230), and a frame
  without a seat tube length in binary64.
\<close>

theorem seatpostExtension_along_frame_angle_witness:
  "seatTubeLengthMm tall_frame = Some 520 \<and>
   seatTubeAngle tall_frame = Some 90 \<and>
   effectiveSeatTubeAngle (fitPosition (example_fit (- 60) (Some 30))) = Some 30 \<and>
   sin ((90 * pi) / 180) \<noteq> 0 \<and>
   (\<exists>r. calculateBikeSetup exact_arith (example_fit (- 60) (Some 30)) tall_frame = Some r \<and>
      seatpostExtension r = Some (Math_round (750 / sin ((90 * pi) / 180) - 520)))"
proof -
  have len: "seatTubeLengthMm tall_frame = Some 520" "seatTubeAngle tall_frame = Some 90"
    by (simp_all add: tall_frame_def)
  have eff: "effectiveSeatTubeAngle (fitPosition (example_fit (- 60) (Some 30))) = Some 30"
    by (simp add: example_fit_def)
  have height: "saddleHeight (fitPosition (example_fit (- 60) (Some 30))) = 750"
    by (simp add: example_fit_def example_position_def)
  have sin: "sin ((90 * pi) / 180) \<noteq> 0"
    by simp
  from seatpostExtension_along_frame_angle [OF exact_exact_counter refl refl refl,
      of "example_fit (- 60) (Some 30)" tall_frame]
  obtain r where r: "calculateBikeSetup exact_arith (example_fit (- 60) (Some 30)) tall_frame = Some r"
    and ext: "\<forall>len. seatTubeLengthMm tall_frame = Some len \<and> len \<noteq> 0 \<and>
        Math_sin exact_arith (fdiv exact_arith (fmul exact_arith
          (case (case seatTubeAngle tall_frame of
                   Some a \<Rightarrow> if a \<noteq> 0 then Some a else None | None \<Rightarrow> None) of
             Some a \<Rightarrow> a
           | None \<Rightarrow> (case effectiveSeatTubeAngle (fitPosition (example_fit (- 60) (Some 30))) of
                Some e \<Rightarrow> if e \<noteq> 0 then e else 73 | None \<Rightarrow> 73))
          (Math_PI exact_arith)) 180) \<noteq> 0 \<longrightarrow>
        seatpostExtension r =
          Some (Math_round
            (fsub exact_arith (fdiv exact_arith (saddleHeight (fitPosition (example_fit (- 60) (Some 30))))
              (Math_sin exact_arith (fdiv exact_arith (fmul exact_arith
          (case (case seatTubeAngle tall_frame of
                   Some a \<Rightarrow> if a \<noteq> 0 then Some a else None | None \<Rightarrow> None) of
             Some a \<Rightarrow> a
           | None \<Rightarrow> (case effectiveSeatTubeAngle (fitPosition (example_fit (- 60) (Some 30))) of
                Some e \<Rightarrow> if e \<noteq> 0 then e else 73 | None \<Rightarrow> 73))
          (Math_PI exact_arith)) 180))) len))"
    by blast
  from ext [rule_format, of 520] have "seatpostExtension r =
      Some (Math_round (750 / sin ((90 * pi) / 180) - 520))"
    by (simp add: len eff height)
  with r len eff sin show ?thesis by blast
qed




text \<open>
  Claim C5 says the returned deltas are the recomputed ones to within \<open>10\<^sup>-\<^sup>6\<close> mm. The
  returned deltas are rounded to whole millimetres: for a target 100.5 mm ahead of the
  frame and a level stem the code returns a 101 mm stem and \<open>reachDelta = 1\<close>, where the
  recomputation from the returned triple gives 0.5, in binary64 and in exact arithmetic.
\<close>

theorem delta_consistency_counterexample:
  "map_option isAchievable
     (calculateStemRequirements binary64_arith (example_position 530 (981 / 2))
        (example_frame (Some 73)) (level_options None)) = Some True \<and>
   map_option reachDelta
     (calculateStemRequirements binary64_arith (example_position 530 (981 / 2))
        (example_frame (Some 73)) (level_options None)) = Some 1 \<and>
   map_option (recomputed_reachDelta binary64_arith (example_position 530 (981 / 2))
        (example_frame (Some 73)))
     (calculateStemRequirements binary64_arith (example_position 530 (981 / 2))
        (example_frame (Some 73)) (level_options None)) = Some (1 / 2) \<and>
   map_option (recomputed_reachDelta exact_arith (example_position 530 (981 / 2))
        (example_frame (Some 73)))
     (calculateStemRequirements binary64_arith (example_position 530 (981 / 2))
        (example_frame (Some 73)) (level_options None)) = Some (1 / 2)"
  by (simp add: level_stem_201_2)
    (simp add: recomputed_reachDelta_def example_frame_def example_position_def)

text \<open>
  C5, as the code has it. For every input on the non-fallback path of
  \<open>calculateStemRequirements\<close> (some candidate of the search grid is not skipped and
  has its averaged stem length within the bounds; the spacer counter is exact up to
  \<open>maxSpacers\<close>), the function returns, and the returned \<open>stackDelta\<close> and \<open>reachDelta\<close>
  are \<open>Math.round\<close> of the values recomputed from the returned triple
  \<open>(spacerStack, stemLength, stemAngle)\<close> in the machine's arithmetic: they agree with
  the recomputation to within half a millimetre.
\<close>

theorem deltas_are_rounded_recomputation:
  assumes maxLen: "maxLen = (case opt_maxStemLength options of None \<Rightarrow> 140 | Some v \<Rightarrow> v)"
    and minLen: "minLen = (case opt_minStemLength options of None \<Rightarrow> 60 | Some v \<Rightarrow> v)"
    and maxSp: "maxSp = (case opt_maxSpacers options of None \<Rightarrow> 50 | Some v \<Rightarrow> v)"
    and pref: "pref = (case opt_preferredStemAngle options of None \<Rightarrow> - 6 | Some v \<Rightarrow> v)"
    and hta: "hta = (case headTubeAngle newFrame of None \<Rightarrow> 73
                     | Some h \<Rightarrow> if h = 0 then 73 else h)"
    and L: "L = \<lparr>maxStemLength = maxLen, minStemLength = minLen, maxSpacers = maxSp,
         preferredStemAngle = pref, targetStack = handlebarStack fitPos,
         targetReach = handlebarReach fitPos, frameStack = stackMm newFrame,
         frameReach = reachMm newFrame, htAngle = hta\<rparr>"
    and counter: "exact_counter A maxSp"
    and found: "\<exists>k::nat. \<exists>i::int. 5 * real k \<le> maxSp \<and> - 17 \<le> i \<and> i \<le> 17 \<and>
       \<not> \<bar>Math_cos A (effectiveAngle A L (of_int i))\<bar> < point_one A \<and>
       minLen \<le> avgStemLength A L (5 * real k) (of_int i) \<and>
       avgStemLength A L (5 * real k) (of_int i) \<le> maxLen"
  shows "\<exists>r. calculateStemRequirements A fitPos newFrame options = Some r \<and>
     stackDelta r = Math_round (recomputed_stackDelta A fitPos newFrame r) \<and>
     reachDelta r = Math_round (recomputed_reachDelta A fitPos newFrame r) \<and>
     \<bar>stackDelta r - recomputed_stackDelta A fitPos newFrame r\<bar> \<le> 1 / 2 \<and>
     \<bar>reachDelta r - recomputed_reachDelta A fitPos newFrame r\<bar> \<le> 1 / 2"
proof -
  have L': "locals_of fitPos newFrame options = L"
    unfolding L maxLen minLen maxSp pref hta by (rule locals_of_explicit)
  have sel: "maxSpacers L = maxSp" "minStemLength L = minLen" "maxStemLength L = maxLen"
    by (simp_all add: L)
  have ex: "exact_counter A (maxSpacers L)"
    using counter by (simp only: sel)
  from found obtain k :: nat and i :: int where ki: "5 * real k \<le> maxSp" "- 17 \<le> i" "i \<le> 17"
    and adm: "admissible A L (5 * real k) (of_int i)"
    unfolding admissible_def sel by blast
  have grid: "5 * real k \<in> spacer_grid L" "of_int i \<in> angle_grid"
    using ki by (auto simp: spacer_grid_def angle_grid_def sel)
  have "\<exists>b. calculateStemRequirements A fitPos newFrame options = Some (from_best A L b)"
  proof (rule stem_result_cases [OF ex L'], goal_cases)
    case 1
    with grid adm show ?case by blast
  next
    case (2 s a)
    then show ?case by blast
  qed
  then obtain b where b: "calculateStemRequirements A fitPos newFrame options =
      Some (from_best A L b)"
    by blast
  define r where "r = from_best A L b"
  have sd: "stackDelta r = Math_round (recomputed_stackDelta A fitPos newFrame r)"
    unfolding r_def recomputed_from_best [OF L'] by (simp add: from_best_def)
  have rd: "reachDelta r = Math_round (recomputed_reachDelta A fitPos newFrame r)"
    unfolding r_def recomputed_from_best [OF L'] by (simp add: from_best_def)
  have "\<bar>stackDelta r - recomputed_stackDelta A fitPos newFrame r\<bar> \<le> 1 / 2"
    unfolding sd by (rule Math_round_close)
  moreover have "\<bar>reachDelta r - recomputed_reachDelta A fitPos newFrame r\<bar> \<le> 1 / 2"
    unfolding rd by (rule Math_round_close)
  ultimately show ?thesis
    using b sd rd unfolding r_def [symmetric] by blast
qed

text \<open>
  The input of the counterexample: the returned \<open>reachDelta\<close> is 1, the rounding of the
  recomputed 0.5.
\<close>

theorem deltas_are_rounded_recomputation_witness:
  "(\<exists>r. calculateStemRequirements binary64_arith (example_position 530 (981 / 2))
        (example_frame (Some 73)) (level_options None) = Some r \<and>
      reachDelta r = 1 \<and>
      recomputed_reachDelta binary64_arith (example_position 530 (981 / 2))
        (example_frame (Some 73)) r = 1 / 2 \<and>
      reachDelta r = Math_round (recomputed_reachDelta binary64_arith
        (example_position 530 (981 / 2)) (example_frame (Some 73)) r))"
proof -
  let ?P = "example_position 530 (981 / 2)" and ?F = "example_frame (Some 73)"
  have o: "140 = (case opt_maxStemLength (level_options None) of None \<Rightarrow> 140 | Some v \<Rightarrow> v)"
    "60 = (case opt_minStemLength (level_options None) of None \<Rightarrow> 60 | Some v \<Rightarrow> v)"
    "0 = (case opt_maxSpacers (level_options None) of None \<Rightarrow> 50 | Some v \<Rightarrow> v)"
    "17 = (case opt_preferredStemAngle (level_options None) of None \<Rightarrow> - 6 | Some v \<Rightarrow> v)"
    "73 = (case headTubeAngle ?F of None \<Rightarrow> 73 | Some h \<Rightarrow> if h = 0 then 73 else h)"
    by (simp_all add: level_options_def example_frame_def)
  have L: "level_locals 60 (981 / 2) = \<lparr>maxStemLength = 140, minStemLength = 60, maxSpacers = 0,
         preferredStemAngle = 17, targetStack = handlebarStack ?P,
         targetReach = handlebarReach ?P, frameStack = stackMm ?F,
         frameReach = reachMm ?F, htAngle = 73\<rparr>"
    by (simp add: level_locals_def example_position_def example_frame_def)
  have counter: "exact_counter binary64_arith 0"
    by (rule binary64_exact_counter) simp
  have g: "rnd64 (981 / 2 - 390) = 201 / 2" "rnd64 (201 / 2 + 201 / 2) = 201 / 2 + 201 / 2"
    by simp_all
  have "admissible binary64_arith (level_locals 60 (981 / 2)) 0 17"
    using level_stem_candidate [OF g, of 60] by (simp add: candidate_Some_iff)
  then have "5 * real (0::nat) \<le> 0 \<and> - 17 \<le> (17::int) \<and> (17::int) \<le> 17 \<and>
       \<not> \<bar>Math_cos binary64_arith (effectiveAngle binary64_arith (level_locals 60 (981 / 2))
             (of_int 17))\<bar> < point_one binary64_arith \<and>
       60 \<le> avgStemLength binary64_arith (level_locals 60 (981 / 2)) (5 * real (0::nat)) (of_int 17) \<and>
       avgStemLength binary64_arith (level_locals 60 (981 / 2)) (5 * real (0::nat)) (of_int 17) \<le> 140"
    by (simp add: admissible_def level_locals_def)
  then have found: "\<exists>k::nat. \<exists>i::int. 5 * real k \<le> 0 \<and> - 17 \<le> i \<and> i \<le> 17 \<and>
       \<not> \<bar>Math_cos binary64_arith (effectiveAngle binary64_arith (level_locals 60 (981 / 2))
             (of_int i))\<bar> < point_one binary64_arith \<and>
       60 \<le> avgStemLength binary64_arith (level_locals 60 (981 / 2)) (5 * real k) (of_int i) \<and>
       avgStemLength binary64_arith (level_locals 60 (981 / 2)) (5 * real k) (of_int i) \<le> 140"
    by blast
  from deltas_are_rounded_recomputation [OF o L counter found]
  obtain r where r: "calculateStemRequirements binary64_arith ?P ?F (level_options None) = Some r"
    and rd: "reachDelta r = Math_round (recomputed_reachDelta binary64_arith ?P ?F r)"
    by blast
  from r have r': "r = \<lparr>stemLength = 101, stemAngle = 17, spacerStack = 0, stackDelta = 0,
       reachDelta = 1, isAchievable = True,
       stem_notes = best_notes binary64_arith (level_locals 60 (981 / 2))
         \<lparr>spacers = 0, best_stemLength = 101, best_stemAngle = 17, error = 0\<rparr>\<rparr>"
    by (simp add: level_stem_201_2)
  have "reachDelta r = 1"
    by (simp add: r')
  moreover have "recomputed_reachDelta binary64_arith ?P ?F r = 1 / 2"
    by (simp add: r' recomputed_reachDelta_def example_frame_def example_position_def)
  ultimately show ?thesis
    using r rd by blast
qed

text \<open>
  Claim C6 puts the returned stem length within the bounds. The bounds are tested
  before the length is rounded: with \<open>minStemLength = 100.25\<close> and a target 100.25 mm
  ahead of the frame, the code accepts a level stem of 100.25 mm and returns
  \<open>stemLength = 100\<close>, below the minimum, with \<open>isAchievable = true\<close>.
\<close>

theorem achievable_bounds_counterexample:
  "opt_minStemLength (level_options (Some (401 / 4))) = Some (401 / 4) \<and>
   map_option isAchievable
     (calculateStemRequirements binary64_arith (example_position 530 (1961 / 4))
        (example_frame (Some 73)) (level_options (Some (401 / 4)))) = Some True \<and>
   map_option stemLength
     (calculateStemRequirements binary64_arith (example_position 530 (1961 / 4))
        (example_frame (Some 73)) (level_options (Some (401 / 4)))) = Some 100 \<and>
   (100 :: real) < 401 / 4"
  by (simp add: level_stem_401_4) (simp add: level_options_def)

text \<open>
  C6, as the code has it. Whenever \<open>calculateStemRequirements\<close> returns
  \<open>isAchievable = true\<close> (with a spacer counter that is exact up to \<open>maxSpacers\<close>), the
  returned \<open>stemLength\<close> is \<open>Math.round\<close> of a length within
  \<open>[minStemLength, maxStemLength]\<close>; so it lies between the rounded bounds, and within
  the bounds themselves when they are whole numbers. The returned \<open>spacerStack\<close> lies in
  \<open>[0, maxSpacers]\<close> and is a multiple of 5.
\<close>

theorem achievable_within_rounded_bounds:
  assumes maxLen: "maxLen = (case opt_maxStemLength options of None \<Rightarrow> 140 | Some v \<Rightarrow> v)"
    and minLen: "minLen = (case opt_minStemLength options of None \<Rightarrow> 60 | Some v \<Rightarrow> v)"
    and maxSp: "maxSp = (case opt_maxSpacers options of None \<Rightarrow> 50 | Some v \<Rightarrow> v)"
    and counter: "exact_counter A maxSp"
    and r: "calculateStemRequirements A fitPos newFrame options = Some r"
    and ach: "isAchievable r"
  shows "(\<exists>len. minLen \<le> len \<and> len \<le> maxLen \<and> stemLength r = Math_round len) \<and>
     Math_round minLen \<le> stemLength r \<and>
     stemLength r \<le> Math_round maxLen \<and>
     (minLen \<in> \<int> \<longrightarrow> minLen \<le> stemLength r) \<and>
     (maxLen \<in> \<int> \<longrightarrow> stemLength r \<le> maxLen) \<and>
     0 \<le> spacerStack r \<and> spacerStack r \<le> maxSp \<and>
     (\<exists>k::nat. spacerStack r = 5 * real k)"
proof -
  define L where "L = locals_of fitPos newFrame options"
  have sel: "maxSpacers L = maxSp" "minStemLength L = minLen" "maxStemLength L = maxLen"
    by (simp_all add: L_def locals_of_explicit maxSp minLen maxLen)
  have ex: "exact_counter A (maxSpacers L)"
    using counter by (simp only: sel)
  have "\<exists>s a. s \<in> spacer_grid L \<and> admissible A L s a \<and>
      stemLength r = Math_round (avgStemLength A L s a) \<and> spacerStack r = s"
  proof (rule stem_result_cases [OF ex L_def [symmetric]], goal_cases)
    case 1
    with r have "r = fallback A L" by simp
    with ach show ?case
      by (simp add: fallback_def Let_def)
  next
    case (2 s a)
    with r have "r = from_best A L \<lparr>spacers = s,
        best_stemLength = Math_round (avgStemLength A L s a),
        best_stemAngle = a, error = scoredError A L s a\<rparr>"
      by simp
    then have "stemLength r = Math_round (avgStemLength A L s a)" "spacerStack r = s"
      by (simp_all add: from_best_def)
    with 2(1,3) show ?case by blast
  qed
  then obtain s a where sa: "s \<in> spacer_grid L" "admissible A L s a"
      "stemLength r = Math_round (avgStemLength A L s a)" "spacerStack r = s"
    by blast
  from sa(2) have len: "minLen \<le> avgStemLength A L s a" "avgStemLength A L s a \<le> maxLen"
    by (simp_all add: admissible_def sel)
  from sa(1) obtain k :: nat where k: "s = 5 * real k" "s \<le> maxSp"
    by (auto simp: spacer_grid_def sel)
  have lo: "Math_round minLen \<le> stemLength r"
    unfolding sa(3) using len(1) by (rule Math_round_mono)
  have hi: "stemLength r \<le> Math_round maxLen"
    unfolding sa(3) using len(2) by (rule Math_round_mono)
  have "\<exists>len. minLen \<le> len \<and> len \<le> maxLen \<and> stemLength r = Math_round len"
    using len sa(3) by blast
  moreover have "\<exists>k::nat. spacerStack r = 5 * real k"
    using k(1) sa(4) by blast
  moreover have "0 \<le> spacerStack r" "spacerStack r \<le> maxSp"
    using k sa(4) by simp_all
  moreover have "minLen \<in> \<int> \<longrightarrow> minLen \<le> stemLength r"
    using lo by (auto simp: Math_round_Ints)
  moreover have "maxLen \<in> \<int> \<longrightarrow> stemLength r \<le> maxLen"
    using hi by (auto simp: Math_round_Ints)
  ultimately show ?thesis
    using lo hi by blast
qed

text \<open>
  A target 100.5 mm ahead of the frame with the default length bounds: an achievable
  101 mm stem without spacers.
\<close>

theorem achievable_within_rounded_bounds_witness:
  "calculateStemRequirements binary64_arith (example_position 530 (981 / 2))
       (example_frame (Some 73)) (level_options None) =
     Some \<lparr>stemLength = 101, stemAngle = 17, spacerStack = 0, stackDelta = 0,
       reachDelta = 1, isAchievable = True,
       stem_notes = best_notes binary64_arith (level_locals 60 (981 / 2))
         \<lparr>spacers = 0, best_stemLength = 101, best_stemAngle = 17, error = 0\<rparr>\<rparr> \<and>
   (60 :: real) \<le> 101 \<and> (101 :: real) \<le> 140 \<and> (0 :: real) = 5 * real (0 :: nat)"
proof -
  let ?r = "\<lparr>stemLength = 101, stemAngle = 17, spacerStack = 0, stackDelta = 0,
       reachDelta = 1, isAchievable = True,
       stem_notes = best_notes binary64_arith (level_locals 60 (981 / 2))
         \<lparr>spacers = 0, best_stemLength = 101, best_stemAngle = 17, error = 0\<rparr>\<rparr>"
  have o: "140 = (case opt_maxStemLength (level_options None) of None \<Rightarrow> 140 | Some v \<Rightarrow> v)"
    "60 = (case opt_minStemLength (level_options None) of None \<Rightarrow> 60 | Some v \<Rightarrow> v)"
    "0 = (case opt_maxSpacers (level_options None) of None \<Rightarrow> 50 | Some v \<Rightarrow> v)"
    by (simp_all add: level_options_def)
  have counter: "exact_counter binary64_arith 0"
    by (rule binary64_exact_counter) simp
  have ach: "isAchievable ?r" by simp
  have int: "(60 :: real) \<in> \<int>" "(140 :: real) \<in> \<int>" by simp_all
  from achievable_within_rounded_bounds [OF o counter level_stem_201_2 ach] int
  have "(60 :: real) \<le> 101 \<and> (101 :: real) \<le> 140"
    by simp
  with level_stem_201_2 show ?thesis by simp
qed

text \<open>
  C7. When the frame's \<open>seatTubeLengthMm\<close> is present, \<open>calculateBikeSetup\<close> emits a
  warning if and only if the computed \<open>seatpostExtension\<close> is below 50 or above 200: the
  low-extension warning below 50 and the high-extension warning above 200, each with
  the extension. When the length is absent, \<open>seatpostExtension\<close> is \<open>null\<close> and there is
  no warning. (The default options bound the spacer counter by 50, where it is exact.)
\<close>

theorem seatpost_warning_iff_out_of_range:
  assumes "exact_counter A 50"
  shows "\<exists>r. calculateBikeSetup A fitData newFrame = Some r \<and>
     (\<forall>len. seatTubeLengthMm newFrame = Some len \<longrightarrow>
        (warnings r \<noteq> [] \<longleftrightarrow> (\<exists>e. seatpostExtension r = Some e \<and> (e < 50 \<or> e > 200)))) \<and>
     (\<forall>e. seatpostExtension r = Some e \<longrightarrow>
        warnings r =
          (if e < 50
           then [[Lit ''Low seatpost extension ('', Num e,
                  Lit ''mm) - check minimum insertion depth'']]
           else []) @
          (if e > 200
           then [[Lit ''High seatpost extension ('', Num e,
                  Lit ''mm) - consider a longer seat tube'']]
           else [])) \<and>
     (seatTubeLengthMm newFrame = None \<longrightarrow> seatpostExtension r = None \<and> warnings r = [])"
proof -
  from setup_returns [OF assms, of fitData newFrame] obtain r where
    r: "calculateBikeSetup A fitData newFrame = Some r"
    and ext: "seatpostExtension r = fst (seatpost_block A (fitPosition fitData) newFrame)"
    and ws: "warnings r = snd (seatpost_block A (fitPosition fitData) newFrame)"
    by force
  show ?thesis
    using r
    by (auto simp: ext ws seatpost_block_def Let_def low_extension_warning_def
        high_extension_warning_def split: option.splits)
qed

text \<open>
  A frame with a 520 mm seat tube at 90 degrees: extension 230 and the high-extension
  warning; and a frame without a seat tube length.
\<close>

theorem seatpost_warning_iff_out_of_range_witness:
  "seatTubeLengthMm tall_frame = Some 520 \<and>
   (\<exists>r. calculateBikeSetup exact_arith (example_fit (- 60) (Some 73)) tall_frame = Some r \<and>
      seatpostExtension r = Some 230 \<and>
      warnings r = [[Lit ''High seatpost extension ('', Num 230,
                     Lit ''mm) - consider a longer seat tube'']]) \<and>
   seatTubeLengthMm (example_frame (Some 73)) = None \<and>
   (\<exists>r. calculateBikeSetup binary64_arith (example_fit (- 60) (Some 73)) (example_frame (Some 73))
        = Some r \<and>
      seatpostExtension r = None \<and> warnings r = [])"
proof -
  have len: "seatTubeLengthMm tall_frame = Some 520" "seatTubeLengthMm (example_frame (Some 73)) = None"
    by (simp_all add: tall_frame_def example_frame_def)
  from seatpost_warning_iff_out_of_range [OF exact_exact_counter,
      of "example_fit (- 60) (Some 73)" tall_frame]
  obtain r where r: "calculateBikeSetup exact_arith (example_fit (- 60) (Some 73)) tall_frame = Some r"
    and ws: "\<forall>e. seatpostExtension r = Some e \<longrightarrow>
        warnings r =
          (if e < 50
           then [[Lit ''Low seatpost extension ('', Num e,
                  Lit ''mm) - check minimum insertion depth'']]
           else []) @
          (if e > 200
           then [[Lit ''High seatpost extension ('', Num e,
                  Lit ''mm) - consider a longer seat tube'']]
           else [])"
    by blast
  from setup_returns [OF exact_exact_counter, of "example_fit (- 60) (Some 73)" tall_frame] r
  have ext: "seatpostExtension r = Some 230"
    by (auto simp: seatpost_block_tall_frame)
  with ws have "warnings r = [[Lit ''High seatpost extension ('', Num 230,
                     Lit ''mm) - consider a longer seat tube'']]"
    by simp
  with r ext have 1: "\<exists>r. calculateBikeSetup exact_arith (example_fit (- 60) (Some 73)) tall_frame
        = Some r \<and> seatpostExtension r = Some 230 \<and>
      warnings r = [[Lit ''High seatpost extension ('', Num 230,
                     Lit ''mm) - consider a longer seat tube'']]"
    by blast
  from seatpost_warning_iff_out_of_range [OF default_exact_counter,
      of "example_fit (- 60) (Some 73)" "example_frame (Some 73)"] len(2)
  have 2: "\<exists>r. calculateBikeSetup binary64_arith (example_fit (- 60) (Some 73))
        (example_frame (Some 73)) = Some r \<and> seatpostExtension r = None \<and> warnings r = []"
    by auto
  from len 1 2 show ?thesis by simp
qed

text \<open>
  C9. For a frame whose \<open>headTubeAngle\<close> is 0 or missing, \<open>calculateStemRequirements\<close>
  returns what it returns for the same frame with a head tube angle of 73: the
  constants of the search are those read off the inputs with \<open>htAngle = 73\<close>, so the
  spacer contributions \<open>htaRad\<close> and the effective stem angles of the search and of the
  fallback are computed from 73.
\<close>

theorem headTubeAngle_falsy_is_73:
  assumes "headTubeAngle newFrame = None \<or> headTubeAngle newFrame = Some 0"
  shows "calculateStemRequirements A fitPos newFrame options =
       calculateStemRequirements A fitPos (newFrame\<lparr>headTubeAngle := Some 73\<rparr>) options \<and>
     locals_of fitPos newFrame options =
       \<lparr>maxStemLength = (case opt_maxStemLength options of None \<Rightarrow> 140 | Some v \<Rightarrow> v),
        minStemLength = (case opt_minStemLength options of None \<Rightarrow> 60 | Some v \<Rightarrow> v),
        maxSpacers = (case opt_maxSpacers options of None \<Rightarrow> 50 | Some v \<Rightarrow> v),
        preferredStemAngle =
          (case opt_preferredStemAngle options of None \<Rightarrow> - 6 | Some v \<Rightarrow> v),
        targetStack = handlebarStack fitPos, targetReach = handlebarReach fitPos,
        frameStack = stackMm newFrame, frameReach = reachMm newFrame, htAngle = 73\<rparr> \<and>
     htaRad A (locals_of fitPos newFrame options) = fdiv A (fmul A 73 (Math_PI A)) 180 \<and>
     effectiveAngle A (locals_of fitPos newFrame options) a =
       fdiv A (fmul A (fadd A (fsub A 73 90) a) (Math_PI A)) 180"
proof -
  have same: "locals_of fitPos newFrame options =
      locals_of fitPos (newFrame\<lparr>headTubeAngle := Some 73\<rparr>) options"
    using assms by (auto simp: locals_of_def or_else_def)
  have hta: "htAngle (locals_of fitPos newFrame options) = 73"
    using assms by (auto simp: locals_of_def or_else_def)
  have explicit: "locals_of fitPos newFrame options =
       \<lparr>maxStemLength = (case opt_maxStemLength options of None \<Rightarrow> 140 | Some v \<Rightarrow> v),
        minStemLength = (case opt_minStemLength options of None \<Rightarrow> 60 | Some v \<Rightarrow> v),
        maxSpacers = (case opt_maxSpacers options of None \<Rightarrow> 50 | Some v \<Rightarrow> v),
        preferredStemAngle =
          (case opt_preferredStemAngle options of None \<Rightarrow> - 6 | Some v \<Rightarrow> v),
        targetStack = handlebarStack fitPos, targetReach = handlebarReach fitPos,
        frameStack = stackMm newFrame, frameReach = reachMm newFrame, htAngle = 73\<rparr>"
    using assms by (auto simp: locals_of_def default_to_def or_else_def)
  have rest: "calculateStemRequirements A fitPos newFrame options =
       calculateStemRequirements A fitPos (newFrame\<lparr>headTubeAngle := Some 73\<rparr>) options \<and>
     htaRad A (locals_of fitPos newFrame options) = fdiv A (fmul A 73 (Math_PI A)) 180 \<and>
     effectiveAngle A (locals_of fitPos newFrame options) a =
       fdiv A (fmul A (fadd A (fsub A 73 90) a) (Math_PI A)) 180"
    by (simp add: calculateStemRequirements_def same [symmetric] htaRad_def effectiveAngle_def hta)
  from rest explicit show ?thesis by blast
qed

text \<open>
  Head tube angles of 0 and missing against 73, with options of their own; a head
  tube angle of 72 is kept.
\<close>

theorem headTubeAngle_falsy_is_73_witness:
  "calculateStemRequirements binary64_arith (example_position 560 400) (example_frame (Some 0))
       (some_options None None (Some 20) (Some 6)) =
     calculateStemRequirements binary64_arith (example_position 560 400) (example_frame (Some 73))
       (some_options None None (Some 20) (Some 6)) \<and>
   calculateStemRequirements binary64_arith (example_position 560 400) (example_frame None)
       (some_options None None (Some 20) (Some 6)) =
     calculateStemRequirements binary64_arith (example_position 560 400) (example_frame (Some 73))
       (some_options None None (Some 20) (Some 6)) \<and>
   htAngle (locals_of (example_position 560 400) (example_frame (Some 0))
       (some_options None None (Some 20) (Some 6))) = 73 \<and>
   htAngle (locals_of (example_position 560 400) (example_frame (Some 72))
       (some_options None None (Some 20) (Some 6))) = 72"
proof -
  have same: "(example_frame (Some 0))\<lparr>headTubeAngle := Some 73\<rparr> = example_frame (Some 73)"
    "(example_frame None)\<lparr>headTubeAngle := Some 73\<rparr> = example_frame (Some 73)"
    by (simp_all add: example_frame_def)
  have "headTubeAngle (example_frame (Some 0)) = None \<or>
      headTubeAngle (example_frame (Some 0)) = Some 0"
    by (simp add: example_frame_def)
  from headTubeAngle_falsy_is_73 [OF this, THEN conjunct1]
  have zero: "calculateStemRequirements binary64_arith (example_position 560 400)
       (example_frame (Some 0)) (some_options None None (Some 20) (Some 6)) =
     calculateStemRequirements binary64_arith (example_position 560 400) (example_frame (Some 73))
       (some_options None None (Some 20) (Some 6))"
    by (simp only: same)
  have "headTubeAngle (example_frame None) = None \<or> headTubeAngle (example_frame None) = Some 0"
    by (simp add: example_frame_def)
  from headTubeAngle_falsy_is_73 [OF this, THEN conjunct1]
  have missing: "calculateStemRequirements binary64_arith (example_position 560 400)
       (example_frame None) (some_options None None (Some 20) (Some 6)) =
     calculateStemRequirements binary64_arith (example_position 560 400) (example_frame (Some 73))
       (some_options None None (Some 20) (Some 6))"
    by (simp only: same)
  have "htAngle (locals_of (example_position 560 400) (example_frame (Some 0))
       (some_options None None (Some 20) (Some 6))) = 73"
    "htAngle (locals_of (example_position 560 400) (example_frame (Some 72))
       (some_options None None (Some 20) (Some 6))) = 72"
    by (simp_all add: locals_of_def example_frame_def or_else_def)
  with zero missing show ?thesis by simp
qed

text \<open>
  C10. With \<open>\<bar>saddleSetback\<bar> < 50\<close> the notes \<open>calculateBikeSetup\<close> returns are the
  solver's notes, then the note of the offset block if any, then the entry
  \<open>Forward saddle position - ensure saddle rails allow this adjustment\<close>; with
  \<open>\<bar>saddleSetback\<bar> \<ge> 50\<close> that entry is absent.
\<close>

theorem forward_saddle_note_iff_setback_below_50:
  assumes "exact_counter A 50"
  shows "\<exists>r. calculateBikeSetup A fitData newFrame = Some r \<and>
     calculateStemRequirements A (fitPosition fitData) newFrame no_options = Some (stem r) \<and>
     (\<bar>saddleSetback (fitPosition fitData)\<bar> < 50 \<longrightarrow>
       setup_notes r = stem_notes (stem r) @ snd (offset_block A (fitPosition fitData) newFrame) @
         [[Lit ''Forward saddle position - ensure saddle rails allow this adjustment'']]) \<and>
     (\<bar>saddleSetback (fitPosition fitData)\<bar> \<ge> 50 \<longrightarrow>
       [Lit ''Forward saddle position - ensure saddle rails allow this adjustment'']
         \<notin> set (setup_notes r))"
proof -
  from setup_returns [OF assms, of fitData newFrame] obtain stem' r where
    st: "calculateStemRequirements A (fitPosition fitData) newFrame no_options = Some stem'"
    and r: "calculateBikeSetup A fitData newFrame = Some r"
    and stem: "stem r = stem'"
    and all_notes: "setup_notes r = stem_notes stem' @
        snd (offset_block A (fitPosition fitData) newFrame) @
        (if \<bar>saddleSetback (fitPosition fitData)\<bar> < 50 then [forward_saddle_note] else [])"
    by force
  show ?thesis
    using r st stem all_notes forward_not_in_stem_notes [OF st]
      forward_not_in_offset_notes [of A "fitPosition fitData" newFrame]
    by (simp add: forward_saddle_note_def)
qed

text \<open>
  Setbacks of -30 (the note is there) and -60 (it is not), in binary64.
\<close>

theorem forward_saddle_note_iff_setback_below_50_witness:
  "(\<exists>r. calculateBikeSetup binary64_arith (example_fit (- 30) (Some 73)) (example_frame (Some 73))
        = Some r \<and>
      [Lit ''Forward saddle position - ensure saddle rails allow this adjustment'']
        \<in> set (setup_notes r)) \<and>
   (\<exists>r. calculateBikeSetup binary64_arith (example_fit (- 60) (Some 73)) (example_frame (Some 73))
        = Some r \<and>
      [Lit ''Forward saddle position - ensure saddle rails allow this adjustment'']
        \<notin> set (setup_notes r))"
proof -
  have a: "\<bar>saddleSetback (fitPosition (example_fit (- 30) (Some 73)))\<bar> < 50"
    by (simp add: example_fit_def)
  have b: "\<bar>saddleSetback (fitPosition (example_fit (- 60) (Some 73)))\<bar> \<ge> 50"
    by (simp add: example_fit_def)
  from forward_saddle_note_iff_setback_below_50 [OF default_exact_counter,
      of "example_fit (- 30) (Some 73)" "example_frame (Some 73)"] a
  have 1: "\<exists>r. calculateBikeSetup binary64_arith (example_fit (- 30) (Some 73))
        (example_frame (Some 73)) = Some r \<and>
      [Lit ''Forward saddle position - ensure saddle rails allow this adjustment'']
        \<in> set (setup_notes r)"
    by auto
  from forward_saddle_note_iff_setback_below_50 [OF default_exact_counter,
      of "example_fit (- 60) (Some 73)" "example_frame (Some 73)"] b
  have 2: "\<exists>r. calculateBikeSetup binary64_arith (example_fit (- 60) (Some 73))
        (example_frame (Some 73)) = Some r \<and>
      [Lit ''Forward saddle position - ensure saddle rails allow this adjustment'']
        \<notin> set (setup_notes r)"
    by auto
  from 1 2 show ?thesis by simp
qed

end
